theory Spec2Isabelle
  imports Main
begin

section \<open>The page \<^verbatim>\<open>src/app/page.tsx\<close> as an event-driven state machine\<close>

text \<open>
  The component \<^verbatim>\<open>DevnetRugPullDemo\<close> holds eight React state variables and two
  asynchronous callbacks, \<^verbatim>\<open>connectWallet\<close> and \<^verbatim>\<open>simulateScamFlow\<close>. An asynchronous
  callback runs synchronously up to its next \<^verbatim>\<open>await\<close>, is suspended there, and is resumed
  when the awaited promise settles. The model follows that reading: every event handler
  and every resumption is one atomic step that yields the list of effects the code
  performs, in program order, and the continuation (if any) at which the callback is
  suspended again. Calls into the wallet extension and into the ledger client are
  effects; what they answer arrives later as an input of the machine.
\<close>

subsection \<open>JavaScript values read by the code\<close>

text \<open>
  The wallet handle is typed \<^verbatim>\<open>any\<close>, so what \<^verbatim>\<open>signAndSendTransaction\<close> resolves to and
  what a rejected promise carries are arbitrary JavaScript values. The code reads one
  property of each (\<^verbatim>\<open>sig?.signature\<close>, \<^verbatim>\<open>e.message\<close>), tests truthiness and converts to a
  string. \<open>Obj v\<close> is an object whose property read by the code has the value \<open>v\<close>
  (\<open>Undefined\<close> when the object has no such property).
\<close>

datatype jsval = Null | Undefined | Str string | Obj jsval

fun truthy :: "jsval \<Rightarrow> bool" where
  "truthy Null = False"
| "truthy Undefined = False"
| "truthy (Str s) = (s \<noteq> [])"
| "truthy (Obj v) = True"

fun nullish :: "jsval \<Rightarrow> bool" where
  "nullish Null = True"
| "nullish Undefined = True"
| "nullish (Str s) = False"
| "nullish (Obj v) = False"

text \<open>Property access on a value that is not nullish; a string has neither property.\<close>

fun property :: "jsval \<Rightarrow> jsval" where
  "property (Obj v) = v"
| "property v = Undefined"

text \<open>String conversion as done by a template literal and by \<^verbatim>\<open>alert\<close>.\<close>

fun toString :: "jsval \<Rightarrow> string" where
  "toString Null = ''null''"
| "toString Undefined = ''undefined''"
| "toString (Str s) = s"
| "toString (Obj v) = ''[object Object]''"

text \<open>A React state variable of type \<^verbatim>\<open>string | null\<close>, tested with \<^verbatim>\<open>!publicKey\<close>.\<close>

fun present :: "string option \<Rightarrow> bool" where
  "present None = False"
| "present (Some k) = (k \<noteq> [])"

subsection \<open>Module constants (lines 27 to 32)\<close>

datatype config_error = InvalidPublicKeyInput

definition DEFAULT_ADDR :: string where
  "DEFAULT_ADDR = ''9xXFaJ6tDa3s8o1y6g8c2o1j9nKkz9g9m5A2wVvQ3Z9T''"

text \<open>
  \<^verbatim>\<open>new PublicKey(ENV_ADDR || DEFAULT_ADDR)\<close> at module scope. \<open>ENV_ADDR\<close> is
  \<^verbatim>\<open>process.env.NEXT_PUBLIC_DEMO_ADDRESS\<close>: absent (\<open>None\<close>) or a string. The constructor
  of \<^verbatim>\<open>PublicKey\<close> belongs to the ledger library; the check it makes is the parameter
  \<open>wellFormed\<close>, and its exception aborts the loading of the module.
\<close>

definition DEMO_SCAMMER_ADDRESS :: "(string \<Rightarrow> bool) \<Rightarrow> string option \<Rightarrow> config_error + string" where
  "DEMO_SCAMMER_ADDRESS wellFormed ENV_ADDR =
     (let input = (if present ENV_ADDR then the ENV_ADDR else DEFAULT_ADDR)
      in if wellFormed input then Inr input else Inl InvalidPublicKeyInput)"

subsection \<open>Transactions\<close>

record transfer =
  fromPubkey :: string
  toPubkey :: string
  lamports :: nat

record transaction =
  recentBlockhash :: string
  feePayer :: string
  instructions :: "transfer list"

subsection \<open>React state, effects and suspended callbacks\<close>

datatype DemoStep = Intro | Form | Processing | Error | RefundFunnel | Done

text \<open>
  \<^verbatim>\<open>window.solana\<close> as far as the page reads it; \<open>None\<close> is a missing handle.
  \<open>provider_publicKey\<close> is the key the wallet itself reports, \<open>None\<close> when it reports
  none.
\<close>

record provider =
  isPhantom :: bool
  isCoinbase :: bool
  isBackpack :: bool
  isConnected :: bool
  provider_publicKey :: "string option"

datatype effect =
    SetWalletAvailable bool
  | SetPublicKey "string option"
  | SetConnecting bool
  | SetBusy bool
  | SetTxSig jsval
  | SetStep DemoStep
  | SetShowDetails bool
  | SetShowRedFlags bool
  | ConsoleError jsval
  | Alert string
  | Connect
  | GetLatestBlockhash
  | SignAndSendTransaction transaction
  | ConfirmTransaction jsval string nat
  | SetTimeout nat
  | UnhandledRejection

text \<open>
  Where \<^verbatim>\<open>simulateScamFlow\<close> is suspended, with the local variables still live there:
  line 91 (\<^verbatim>\<open>fromPubkey\<close>), line 96 (\<open>blockhash\<close>, \<open>lastValidBlockHeight\<close>), line 98
  (\<open>signature\<close>), line 102 (milliseconds left on the timer).
\<close>

datatype flow =
    AwaitBlockhash string
  | AwaitSign string nat
  | AwaitConfirm jsval
  | AwaitDelay nat

datatype 'a settled = Resolved 'a | Rejected jsval

record page =
  walletAvailable :: bool
  publicKey :: "string option"
  connecting :: bool
  busy :: bool
  txSig :: jsval
  step :: DemoStep
  showDetails :: bool
  showRedFlags :: bool
  pending :: "flow list"
  connects :: nat
  trace :: "effect list"

text \<open>
  \<open>pending\<close> lists the invocations of \<^verbatim>\<open>simulateScamFlow\<close> that are suspended, \<open>connects\<close>
  counts the suspended invocations of \<^verbatim>\<open>connectWallet\<close>, and \<open>trace\<close> records every
  effect performed so far. None of the three is program state; they describe the
  JavaScript job queue and the history.
\<close>

definition initialPage :: page where
  "initialPage = \<lparr> walletAvailable = False, publicKey = None, connecting = False,
     busy = False, txSig = Null, step = Intro, showDetails = False, showRedFlags = False,
     pending = [], connects = 0, trace = [] \<rparr>"

fun setState :: "effect \<Rightarrow> page \<Rightarrow> page" where
  "setState (SetWalletAvailable b) s = s\<lparr>walletAvailable := b\<rparr>"
| "setState (SetPublicKey k) s = s\<lparr>publicKey := k\<rparr>"
| "setState (SetConnecting b) s = s\<lparr>connecting := b\<rparr>"
| "setState (SetBusy b) s = s\<lparr>busy := b\<rparr>"
| "setState (SetTxSig v) s = s\<lparr>txSig := v\<rparr>"
| "setState (SetStep d) s = s\<lparr>step := d\<rparr>"
| "setState (SetShowDetails b) s = s\<lparr>showDetails := b\<rparr>"
| "setState (SetShowRedFlags b) s = s\<lparr>showRedFlags := b\<rparr>"
| "setState e s = s"

fun perform :: "effect list \<Rightarrow> page \<Rightarrow> page" where
  "perform [] s = s"
| "perform (e # es) s = perform es ((setState e s)\<lparr>trace := trace s @ [e]\<rparr>)"

subsection \<open>The explorer link (lines 53 to 56)\<close>

definition explorerTxUrl :: "jsval \<Rightarrow> string option" where
  "explorerTxUrl sig =
     (if truthy sig
      then Some (''https://explorer.solana.com/tx/'' @ toString sig @ ''?cluster=devnet'')
      else None)"

subsection \<open>The mount effect (lines 58 to 64)\<close>

definition mountEffect :: "provider option \<Rightarrow> effect list" where
  "mountEffect w =
     (case w of
        None \<Rightarrow> [SetWalletAvailable False]
      | Some p \<Rightarrow>
          SetWalletAvailable (isPhantom p \<or> isCoinbase p \<or> isBackpack p)
          # (if isPhantom p \<and> isConnected p then [SetPublicKey (provider_publicKey p)] else []))"

subsection \<open>connectWallet (lines 66 to 79)\<close>

text \<open>
  The \<^verbatim>\<open>catch\<close> block reads \<^verbatim>\<open>(e as Error).message\<close>. On a nullish \<open>e\<close> that read throws
  a \<^verbatim>\<open>TypeError\<close> inside the handler: the \<^verbatim>\<open>alert\<close> is not reached, the \<^verbatim>\<open>finally\<close> block
  still runs, and the promise of the callback is rejected with nobody listening.
\<close>

definition connectFailed :: "jsval \<Rightarrow> effect list" where
  "connectFailed e =
     ConsoleError e
     # (if nullish e then [SetConnecting False, UnhandledRejection]
        else [Alert (if truthy (property e) then toString (property e)
                     else ''Failed to connect wallet''),
              SetConnecting False])"

definition connectWallet :: "provider option \<Rightarrow> effect list \<times> bool" where
  "connectWallet w =
     (case w of
        None \<Rightarrow>
          (SetConnecting True
           # connectFailed (Obj (Str ''No Solana wallet found. Install Phantom and switch to Devnet.'')),
           False)
      | Some p \<Rightarrow> ([SetConnecting True, Connect], True))"

text \<open>
  The resolved value is given as what \<^verbatim>\<open>res?.publicKey?.toBase58?.() ?? null\<close> evaluates
  to.
\<close>

definition afterConnect :: "string option settled \<Rightarrow> effect list" where
  "afterConnect r =
     (case r of
        Resolved k \<Rightarrow> [SetPublicKey k, SetConnecting False]
      | Rejected e \<Rightarrow> connectFailed e)"

subsection \<open>simulateScamFlow (lines 81 to 111)\<close>

text \<open>The \<^verbatim>\<open>catch\<close> and \<^verbatim>\<open>finally\<close> blocks, lines 104 to 110.\<close>

definition flowFailed :: "jsval \<Rightarrow> effect list" where
  "flowFailed e =
     ConsoleError e
     # (if nullish e then [SetBusy False, UnhandledRejection]
        else [Alert (if truthy (property e) then toString (property e)
                     else ''Transaction failed''),
              SetStep Form,
              SetBusy False])"

text \<open>\<^verbatim>\<open>provider?.publicKey\<close>, line 86.\<close>

definition currentPublicKey :: "provider option \<Rightarrow> string option" where
  "currentPublicKey w = (case w of None \<Rightarrow> None | Some p \<Rightarrow> provider_publicKey p)"

text \<open>Lines 83 to 91: up to the first \<^verbatim>\<open>await\<close>.\<close>

definition simulateScamFlow :: "provider option \<Rightarrow> effect list \<times> flow option" where
  "simulateScamFlow w =
     (case currentPublicKey w of
        None \<Rightarrow>
          ([SetBusy True, SetStep Processing] @ flowFailed (Obj (Str ''Wallet not connected.'')),
           None)
      | Some payer \<Rightarrow>
          ([SetBusy True, SetStep Processing, GetLatestBlockhash],
           Some (AwaitBlockhash payer)))"

text \<open>Lines 91 to 96: \<open>payer\<close> is the local \<^verbatim>\<open>fromPubkey\<close> of line 89, \<open>recipient\<close> the loaded \<^verbatim>\<open>DEMO_SCAMMER_ADDRESS\<close>.\<close>

definition afterBlockhash :: "string \<Rightarrow> string \<Rightarrow> (string \<times> nat) settled \<Rightarrow> effect list \<times> flow option" where
  "afterBlockhash recipient payer r =
     (case r of
        Rejected e \<Rightarrow> (flowFailed e, None)
      | Resolved (blockhash, lastValidBlockHeight) \<Rightarrow>
          ([SignAndSendTransaction
              \<lparr> recentBlockhash = blockhash, feePayer = payer,
                instructions = [\<lparr> fromPubkey = payer, toPubkey = recipient, lamports = 1000000 \<rparr>] \<rparr>],
           Some (AwaitSign blockhash lastValidBlockHeight)))"

text \<open>Lines 96 to 98: \<^verbatim>\<open>sig?.signature || sig\<close>.\<close>

definition signatureOf :: "jsval \<Rightarrow> jsval" where
  "signatureOf sig = (if truthy (property sig) then property sig else sig)"

definition afterSign :: "string \<Rightarrow> nat \<Rightarrow> jsval settled \<Rightarrow> effect list \<times> flow option" where
  "afterSign blockhash lastValidBlockHeight r =
     (case r of
        Rejected e \<Rightarrow> (flowFailed e, None)
      | Resolved sig \<Rightarrow>
          ([ConfirmTransaction (signatureOf sig) blockhash lastValidBlockHeight],
           Some (AwaitConfirm (signatureOf sig))))"

text \<open>
  Lines 98 to 102. The value the confirmation resolves to (it carries the ledger's
  \<^verbatim>\<open>err\<close> field, here \<open>string option\<close>) is not read by the code.
\<close>

definition afterConfirm :: "jsval \<Rightarrow> string option settled \<Rightarrow> effect list \<times> flow option" where
  "afterConfirm signature r =
     (case r of
        Rejected e \<Rightarrow> (flowFailed e, None)
      | Resolved err \<Rightarrow> ([SetTxSig signature, SetTimeout 1200], Some (AwaitDelay 1200)))"

text \<open>Lines 103 and 109, when the timer of line 102 fires.\<close>

definition afterDelay :: "effect list" where
  "afterDelay = [SetStep Error, SetBusy False]"

subsection \<open>Inputs and the step function\<close>

text \<open>
  React renders the state set during a click handler before the browser delivers the
  next event, so each input meets the page as the previous step left it.
  A click reaches its handler only when the button is rendered and not disabled. A
  settlement is addressed to a suspended invocation by its position in \<open>pending\<close>, and
  is possible only if that invocation waits for it. \<open>TimePasses n\<close> lets \<open>n\<close>
  milliseconds go by; the only timer the page ever sets is the one of line 102.
\<close>

datatype input =
    ClickStart
  | ClickConnectWallet "provider option"
  | ClickCreateToken "provider option"
  | ClickGetRefund
  | ClickFinishDemo
  | ClickShowRedFlags
  | ClickCloseRedFlags
  | ClickToggleDetails
  | ConnectSettled "string option settled"
  | BlockhashSettled nat "(string \<times> nat) settled"
  | SignSettled nat "jsval settled"
  | ConfirmSettled nat "string option settled"
  | TimePasses nat

text \<open>Suspend invocation \<open>k\<close> at its next \<^verbatim>\<open>await\<close>, or drop it when it has returned.\<close>

definition continue :: "nat \<Rightarrow> effect list \<times> flow option \<Rightarrow> page \<Rightarrow> page" where
  "continue k r s =
     perform (fst r)
       (s\<lparr>pending := (case snd r of
                        None \<Rightarrow> take k (pending s) @ drop (Suc k) (pending s)
                      | Some f \<Rightarrow> (pending s)[k := f])\<rparr>)"

fun elapse :: "nat \<Rightarrow> flow list \<Rightarrow> effect list \<times> flow list" where
  "elapse n [] = ([], [])"
| "elapse n (AwaitDelay r # fs) =
     (if r \<le> n then (afterDelay @ fst (elapse n fs), snd (elapse n fs))
      else (fst (elapse n fs), AwaitDelay (r - n) # snd (elapse n fs)))"
| "elapse n (f # fs) = (fst (elapse n fs), f # snd (elapse n fs))"

fun handle :: "string \<Rightarrow> input \<Rightarrow> page \<Rightarrow> page" where
  "handle recipient ClickStart s =
     (if step s = Intro then perform [SetStep Form] s else s)"
| "handle recipient (ClickConnectWallet w) s =
     (if \<not> present (publicKey s) \<and> \<not> connecting s
      then perform (fst (connectWallet w))
             (s\<lparr>connects := (if snd (connectWallet w) then Suc (connects s) else connects s)\<rparr>)
      else s)"
| "handle recipient (ClickCreateToken w) s =
     (if step s = Form \<and> \<not> (\<not> present (publicKey s) \<or> busy s)
      then perform (fst (simulateScamFlow w))
             (s\<lparr>pending := (case snd (simulateScamFlow w) of
                              None \<Rightarrow> pending s
                            | Some f \<Rightarrow> pending s @ [f])\<rparr>)
      else s)"
| "handle recipient ClickGetRefund s =
     (if step s = Error then perform [SetStep RefundFunnel] s else s)"
| "handle recipient ClickFinishDemo s =
     (if step s = RefundFunnel then perform [SetStep Done] s else s)"
| "handle recipient ClickShowRedFlags s = perform [SetShowRedFlags True] s"
| "handle recipient ClickCloseRedFlags s =
     (if showRedFlags s then perform [SetShowRedFlags False] s else s)"
| "handle recipient ClickToggleDetails s = perform [SetShowDetails (\<not> showDetails s)] s"
| "handle recipient (ConnectSettled r) s =
     (if 0 < connects s then perform (afterConnect r) (s\<lparr>connects := connects s - 1\<rparr>) else s)"
| "handle recipient (BlockhashSettled k r) s =
     (if k < length (pending s)
      then (case pending s ! k of
              AwaitBlockhash payer \<Rightarrow> continue k (afterBlockhash recipient payer r) s
            | _ \<Rightarrow> s)
      else s)"
| "handle recipient (SignSettled k r) s =
     (if k < length (pending s)
      then (case pending s ! k of
              AwaitSign blockhash lastValidBlockHeight \<Rightarrow>
                continue k (afterSign blockhash lastValidBlockHeight r) s
            | _ \<Rightarrow> s)
      else s)"
| "handle recipient (ConfirmSettled k r) s =
     (if k < length (pending s)
      then (case pending s ! k of
              AwaitConfirm signature \<Rightarrow> continue k (afterConfirm signature r) s
            | _ \<Rightarrow> s)
      else s)"
| "handle recipient (TimePasses n) s =
     perform (fst (elapse n (pending s))) (s\<lparr>pending := snd (elapse n (pending s))\<rparr>)"

fun run :: "string \<Rightarrow> input list \<Rightarrow> page \<Rightarrow> page" where
  "run recipient [] s = s"
| "run recipient (i # is) s = run recipient is (handle recipient i s)"

text \<open>The page after its first render and the mount effect.\<close>

definition pageLoad :: "provider option \<Rightarrow> page" where
  "pageLoad w = perform (mountEffect w) initialPage"

subsection \<open>The module and its page\<close>

text \<open>
  The component exists only if the module has loaded, and its callbacks then use the
  recipient computed at load time.
\<close>

definition DevnetRugPullDemo ::
  "(string \<Rightarrow> bool) \<Rightarrow> string option \<Rightarrow> provider option \<Rightarrow> input list \<Rightarrow> config_error + page" where
  "DevnetRugPullDemo wellFormed ENV_ADDR w ins =
     (case DEMO_SCAMMER_ADDRESS wellFormed ENV_ADDR of
        Inl e \<Rightarrow> Inl e
      | Inr recipient \<Rightarrow> Inr (run recipient ins (pageLoad w)))"

text \<open>The effects performed by one step.\<close>

definition emitted :: "string \<Rightarrow> input \<Rightarrow> page \<Rightarrow> effect list" where
  "emitted recipient i s = drop (length (trace s)) (trace (handle recipient i s))"

fun isConfirmSettled :: "input \<Rightarrow> bool" where
  "isConfirmSettled (ConfirmSettled k r) = True"
| "isConfirmSettled i = False"

subsection \<open>Reading an explorer link back\<close>

text \<open>
  Modelled from the spec: the page only builds explorer links and has no code that
  reads one. To state that a link gives its signature back, a link is read against the
  shape \<^verbatim>\<open><explorer-base>/tx/<signature>?cluster=<cluster>\<close> of the specification: the
  base is stripped, the query is what follows the last question mark, and the signature
  is what stands before it.
\<close>

fun stripPrefix :: "string \<Rightarrow> string \<Rightarrow> string option" where
  "stripPrefix [] ys = Some ys"
| "stripPrefix (x # xs) [] = None"
| "stripPrefix (x # xs) (y # ys) = (if x = y then stripPrefix xs ys else None)"

definition parseExplorerTxUrl :: "string \<Rightarrow> (string \<times> string) option" where
  "parseExplorerTxUrl url =
     (case stripPrefix ''https://explorer.solana.com/tx/'' url of
        None \<Rightarrow> None
      | Some rest \<Rightarrow>
          (if CHR ''?'' \<in> set rest
           then (case stripPrefix ''cluster=''
                        (rev (takeWhile (\<lambda>c. c \<noteq> CHR ''?'') (rev rest))) of
                   None \<Rightarrow> None
                 | Some cluster \<Rightarrow>
                     Some (rev (tl (dropWhile (\<lambda>c. c \<noteq> CHR ''?'') (rev rest))), cluster))
           else None))"

subsection \<open>Consistency of the page with its suspended callbacks\<close>

text \<open>
  What every reachable page satisfies: at most one invocation of \<^verbatim>\<open>simulateScamFlow\<close> is
  suspended; while one is, \<open>busy\<close> is set and the step is \<open>Processing\<close>; \<open>txSig\<close> is
  still \<open>Null\<close> until a confirmation has resolved; and once it is not \<open>Null\<close> and the
  invocation has returned, the step is one of the last three.
\<close>

definition consistent :: "page \<Rightarrow> bool" where
  "consistent s =
     (case pending s of
        [] \<Rightarrow> \<not> busy s \<and>
              (txSig s \<noteq> Null \<longrightarrow> step s = Error \<or> step s = RefundFunnel \<or> step s = Done)
      | [f] \<Rightarrow> busy s \<and> step s = Processing \<and>
               (case f of AwaitDelay r \<Rightarrow> True | _ \<Rightarrow> txSig s = Null)
      | _ \<Rightarrow> False)"

subsection \<open>The order of the calls to the ledger and the wallet\<close>

text \<open>
  \<open>calls\<close> keeps, from a trace, the calls of the payment: the reference fetch, the
  submission and the confirmation request. \<open>sequenced\<close> reads such a list from the
  newest call back: a submission must stand directly after a fetch, a confirmation
  request directly after the submission of a transaction with the same blockhash.
  \<open>tracked\<close> adds what a suspended invocation has called last.
\<close>

fun isPipelineCall :: "effect \<Rightarrow> bool" where
  "isPipelineCall GetLatestBlockhash = True"
| "isPipelineCall (SignAndSendTransaction tx) = True"
| "isPipelineCall (ConfirmTransaction g b h) = True"
| "isPipelineCall e = False"

definition calls :: "effect list \<Rightarrow> effect list" where
  "calls es = filter isPipelineCall es"

fun submitted :: "effect \<Rightarrow> string option" where
  "submitted (SignAndSendTransaction tx) = Some (recentBlockhash tx)"
| "submitted e = None"

fun follows :: "effect \<Rightarrow> effect list \<Rightarrow> bool" where
  "follows (SignAndSendTransaction tx) older = (older \<noteq> [] \<and> hd older = GetLatestBlockhash)"
| "follows (ConfirmTransaction g b h) older = (older \<noteq> [] \<and> submitted (hd older) = Some b)"
| "follows e older = True"

fun sequenced :: "effect list \<Rightarrow> bool" where
  "sequenced [] = True"
| "sequenced (e # older) = (follows e older \<and> sequenced older)"

fun expects :: "flow \<Rightarrow> effect list \<Rightarrow> bool" where
  "expects (AwaitBlockhash payer) newest = (newest \<noteq> [] \<and> hd newest = GetLatestBlockhash)"
| "expects (AwaitSign blockhash height) newest =
     (newest \<noteq> [] \<and> submitted (hd newest) = Some blockhash)"
| "expects f newest = True"

definition tracked :: "page \<Rightarrow> bool" where
  "tracked s =
     (sequenced (rev (calls (trace s)))
      \<and> list_all (\<lambda>f. expects f (rev (calls (trace s)))) (pending s))"

subsection \<open>A sample session\<close>

text \<open>
  A Phantom wallet that is already connected with the key \<open>PK\<close>, and the inputs of one
  payment: the start button, the submit button, the answer of the ledger to the
  reference fetch, the wallet's answer carrying the signature \<open>SIG1\<close>, the confirmation,
  and the 1200 milliseconds of line 102.
\<close>

definition phantom :: "provider option" where
  "phantom = Some \<lparr> isPhantom = True, isCoinbase = False, isBackpack = False,
     isConnected = True, provider_publicKey = Some ''PK'' \<rparr>"

definition untilSubmitted :: "input list" where
  "untilSubmitted =
     [ClickStart, ClickCreateToken phantom, BlockhashSettled 0 (Resolved (''BH1'', 100))]"

definition untilConfirming :: "input list" where
  "untilConfirming = untilSubmitted @ [SignSettled 0 (Resolved (Obj (Str ''SIG1'')))]"

definition untilError :: "input list" where
  "untilError = untilConfirming @ [ConfirmSettled 0 (Resolved None), TimePasses 1200]"

section \<open>Basic facts\<close>

lemma pending_setState [simp]: "pending (setState e s) = pending s"
  by (cases e) simp_all

lemma connects_setState [simp]: "connects (setState e s) = connects s"
  by (cases e) simp_all

lemma trace_setState [simp]: "trace (setState e s) = trace s"
  by (cases e) simp_all

lemma pending_perform [simp]: "pending (perform es s) = pending s"
  by (induction es arbitrary: s) simp_all

lemma connects_perform [simp]: "connects (perform es s) = connects s"
  by (induction es arbitrary: s) simp_all

lemma trace_perform [simp]: "trace (perform es s) = trace s @ es"
  by (induction es arbitrary: s) simp_all

lemma run_append: "run recipient (xs @ ys) s = run recipient ys (run recipient xs s)"
  by (induction xs arbitrary: s) simp_all

subsection \<open>Every step preserves consistency\<close>

lemma consistent_pageLoad: "consistent (pageLoad w)"
  by (simp add: pageLoad_def consistent_def initialPage_def mountEffect_def split: option.splits)

lemma consistent_click:
  assumes "consistent s"
  shows "consistent (handle recipient ClickStart s)"
    and "consistent (handle recipient ClickGetRefund s)"
    and "consistent (handle recipient ClickFinishDemo s)"
    and "consistent (handle recipient ClickShowRedFlags s)"
    and "consistent (handle recipient ClickCloseRedFlags s)"
    and "consistent (handle recipient ClickToggleDetails s)"
  using assms by (auto simp: consistent_def split: list.splits flow.splits)

lemma consistent_connect:
  "consistent s \<Longrightarrow> consistent (handle recipient (ClickConnectWallet w) s)"
  by (auto simp: consistent_def connectWallet_def connectFailed_def
      split: list.splits flow.splits option.splits)

lemma consistent_connected:
  "consistent s \<Longrightarrow> consistent (handle recipient (ConnectSettled r) s)"
  by (auto simp: consistent_def afterConnect_def connectFailed_def
      split: list.splits flow.splits settled.splits)

lemma consistent_create:
  "consistent s \<Longrightarrow> consistent (handle recipient (ClickCreateToken w) s)"
  by (auto simp: consistent_def simulateScamFlow_def flowFailed_def
      split: list.splits flow.splits option.splits)

lemma consistent_single:
  assumes "consistent s" "k < length (pending s)"
  obtains f where "pending s = [f]" "k = 0" "busy s" "step s = Processing"
  using assms by (auto simp: consistent_def split: list.splits)

lemma consistent_blockhash:
  assumes "consistent s"
  shows "consistent (handle recipient (BlockhashSettled k r) s)"
proof (cases "k < length (pending s)")
  case False
  then show ?thesis using assms by simp
next
  case True
  with assms obtain f where f: "pending s = [f]" "k = 0"
    by (rule consistent_single)
  show ?thesis using assms f
    by (cases f; cases r)
      (auto simp: consistent_def continue_def afterBlockhash_def flowFailed_def)
qed

lemma consistent_sign:
  assumes "consistent s"
  shows "consistent (handle recipient (SignSettled k r) s)"
proof (cases "k < length (pending s)")
  case False
  then show ?thesis using assms by simp
next
  case True
  with assms obtain f where f: "pending s = [f]" "k = 0"
    by (rule consistent_single)
  show ?thesis using assms f
    by (cases f; cases r)
      (auto simp: consistent_def continue_def afterSign_def flowFailed_def)
qed

lemma consistent_confirm:
  assumes "consistent s"
  shows "consistent (handle recipient (ConfirmSettled k r) s)"
proof (cases "k < length (pending s)")
  case False
  then show ?thesis using assms by simp
next
  case True
  with assms obtain f where f: "pending s = [f]" "k = 0"
    by (rule consistent_single)
  show ?thesis using assms f
    by (cases f; cases r)
      (auto simp: consistent_def continue_def afterConfirm_def flowFailed_def)
qed

lemma consistent_time:
  "consistent s \<Longrightarrow> consistent (handle recipient (TimePasses n) s)"
  by (auto simp: consistent_def afterDelay_def split: list.splits flow.splits)

lemma consistent_handle: "consistent s \<Longrightarrow> consistent (handle recipient i s)"
  by (cases i)
    (simp_all only: consistent_click consistent_connect consistent_connected
      consistent_create consistent_blockhash consistent_sign consistent_confirm
      consistent_time)

lemma consistent_run: "consistent s \<Longrightarrow> consistent (run recipient ins s)"
  by (induction ins arbitrary: s) (simp_all add: consistent_handle)

lemma consistent_reachable: "consistent (run recipient ins (pageLoad w))"
  by (rule consistent_run [OF consistent_pageLoad])

subsection \<open>Where \<open>txSig\<close> can change\<close>

lemma perform_append: "perform (xs @ ys) s = perform ys (perform xs s)"
  by (induction xs arbitrary: s) simp_all

lemma txSig_elapse [simp]: "txSig (perform (fst (elapse n fs)) s) = txSig s"
  by (induction n fs arbitrary: s rule: elapse.induct)
    (simp_all add: perform_append afterDelay_def)

lemma txSig_flowFailed [simp]: "txSig (perform (flowFailed e) s) = txSig s"
  by (simp add: flowFailed_def)

lemma txSig_connect [simp]:
  "txSig (perform (fst (connectWallet w)) s) = txSig s"
  "txSig (perform (afterConnect r) s) = txSig s"
  by (simp_all add: connectWallet_def connectFailed_def afterConnect_def
      split: option.splits settled.splits)

lemma txSig_changes:
  assumes "txSig (handle recipient i s) \<noteq> txSig s"
  shows "\<exists>k err. i = ConfirmSettled k (Resolved err) \<and> k < length (pending s)
            \<and> pending s ! k = AwaitConfirm (txSig (handle recipient i s))"
proof (cases i)
  case (ClickCreateToken w)
  then show ?thesis using assms
    by (simp add: simulateScamFlow_def split: if_splits option.splits)
next
  case (BlockhashSettled k r)
  then show ?thesis using assms
    by (cases r) (auto simp: continue_def afterBlockhash_def split: if_splits flow.splits)
next
  case (SignSettled k r)
  then show ?thesis using assms
    by (cases r) (auto simp: continue_def afterSign_def split: if_splits flow.splits)
next
  case (ConfirmSettled k r)
  then show ?thesis using assms
    by (cases r) (auto simp: continue_def afterConfirm_def split: if_splits flow.splits)
qed (use assms in \<open>simp_all split: if_splits\<close>)

lemma txSig_frozen:
  assumes "consistent s" and "txSig s \<noteq> Null"
  shows "txSig (handle recipient i s) = txSig s"
proof (rule ccontr)
  assume "txSig (handle recipient i s) \<noteq> txSig s"
  then obtain k err where "k < length (pending s)"
      and "pending s ! k = AwaitConfirm (txSig (handle recipient i s))"
    using txSig_changes by blast
  with assms show False
    by (auto simp: consistent_def split: list.splits)
qed

lemma txSig_frozen_run:
  "consistent s \<Longrightarrow> txSig s \<noteq> Null \<Longrightarrow> txSig (run recipient ins s) = txSig s"
  by (induction ins arbitrary: s) (simp_all add: consistent_handle txSig_frozen)

lemma awaiting_sign:
  assumes "consistent s" "k < length (pending s)" "pending s ! k = AwaitSign blockhash height"
  shows "pending s = [AwaitSign blockhash height]" "k = 0" "busy s" "step s = Processing"
  using assms by (auto simp: consistent_def split: list.splits)

subsection \<open>Where the calls into the ledger and the wallet come from\<close>

lemma trace_continue [simp]: "trace (continue k r s) = trace s @ fst r"
  by (simp add: continue_def)

lemma emitted_click:
  "emitted recipient ClickStart s = (if step s = Intro then [SetStep Form] else [])"
  "emitted recipient ClickGetRefund s = (if step s = Error then [SetStep RefundFunnel] else [])"
  "emitted recipient ClickFinishDemo s = (if step s = RefundFunnel then [SetStep Done] else [])"
  "emitted recipient ClickShowRedFlags s = [SetShowRedFlags True]"
  "emitted recipient ClickCloseRedFlags s = (if showRedFlags s then [SetShowRedFlags False] else [])"
  "emitted recipient ClickToggleDetails s = [SetShowDetails (\<not> showDetails s)]"
  "emitted recipient (ClickConnectWallet w) s =
     (if \<not> present (publicKey s) \<and> \<not> connecting s then fst (connectWallet w) else [])"
  "emitted recipient (ConnectSettled c) s = (if 0 < connects s then afterConnect c else [])"
  "emitted recipient (ClickCreateToken w) s =
     (if step s = Form \<and> present (publicKey s) \<and> \<not> busy s then fst (simulateScamFlow w) else [])"
  "emitted recipient (TimePasses n) s = fst (elapse n (pending s))"
  by (simp_all add: emitted_def)

lemma elapse_effects: "set (fst (elapse n fs)) \<subseteq> {SetStep Error, SetBusy False}"
  by (induction n fs rule: elapse.induct) (auto simp: afterDelay_def)

lemma flowFailed_effects:
  "GetLatestBlockhash \<notin> set (flowFailed e)"
  "SignAndSendTransaction tx \<notin> set (flowFailed e)"
  "ConfirmTransaction g b h \<notin> set (flowFailed e)"
  by (simp_all add: flowFailed_def)

lemma connect_effects:
  "GetLatestBlockhash \<notin> set (fst (connectWallet w))"
  "SignAndSendTransaction tx \<notin> set (fst (connectWallet w))"
  "ConfirmTransaction g b h \<notin> set (fst (connectWallet w))"
  "GetLatestBlockhash \<notin> set (afterConnect c)"
  "SignAndSendTransaction tx \<notin> set (afterConnect c)"
  "ConfirmTransaction g b h \<notin> set (afterConnect c)"
  by (simp_all add: connectWallet_def afterConnect_def connectFailed_def
      split: option.splits settled.splits)

lemma submission_origin:
  assumes "SignAndSendTransaction tx \<in> set (emitted recipient i s)"
  shows "\<exists>k height. i = BlockhashSettled k (Resolved (recentBlockhash tx, height))
           \<and> k < length (pending s)
           \<and> pending s ! k = AwaitBlockhash (feePayer tx)
           \<and> emitted recipient i s = [SignAndSendTransaction tx]
           \<and> instructions tx =
               [\<lparr> fromPubkey = feePayer tx, toPubkey = recipient, lamports = 1000000 \<rparr>]
           \<and> pending (handle recipient i s)
               = (pending s)[k := AwaitSign (recentBlockhash tx) height]"
proof (cases i)
  case (ClickCreateToken w)
  then show ?thesis using assms
    by (auto simp: flowFailed_effects emitted_click simulateScamFlow_def
        split: if_splits option.splits)
next
  case (ClickConnectWallet w)
  then show ?thesis using assms
    by (auto simp: connect_effects emitted_click split: if_splits)
next
  case (ConnectSettled c)
  then show ?thesis using assms
    by (auto simp: connect_effects emitted_click split: if_splits)
next
  case (BlockhashSettled k r)
  then show ?thesis using assms
    by (cases r)
      (auto simp: flowFailed_effects emitted_def afterBlockhash_def continue_def
        split: if_splits flow.splits)
next
  case (SignSettled k r)
  then show ?thesis using assms
    by (cases r)
      (auto simp: flowFailed_effects emitted_def afterSign_def split: if_splits flow.splits)
next
  case (ConfirmSettled k r)
  then show ?thesis using assms
    by (cases r)
      (auto simp: flowFailed_effects emitted_def afterConfirm_def split: if_splits flow.splits)
next
  case (TimePasses n)
  then show ?thesis using assms elapse_effects [of n "pending s"]
    by (auto simp: emitted_click)
qed (insert assms, simp_all add: emitted_click split: if_splits)

lemma fetch_origin:
  assumes "GetLatestBlockhash \<in> set (emitted recipient i s)"
  shows "\<exists>w payer. i = ClickCreateToken w \<and> currentPublicKey w = Some payer
           \<and> step s = Form \<and> \<not> busy s
           \<and> emitted recipient i s = [SetBusy True, SetStep Processing, GetLatestBlockhash]
           \<and> pending (handle recipient i s) = pending s @ [AwaitBlockhash payer]"
proof (cases i)
  case (ClickCreateToken w)
  then show ?thesis using assms
    by (auto simp: flowFailed_effects emitted_click simulateScamFlow_def
        split: if_splits option.splits)
next
  case (ClickConnectWallet w)
  then show ?thesis using assms
    by (auto simp: connect_effects emitted_click split: if_splits)
next
  case (ConnectSettled c)
  then show ?thesis using assms
    by (auto simp: connect_effects emitted_click split: if_splits)
next
  case (BlockhashSettled k r)
  then show ?thesis using assms
    by (cases r)
      (auto simp: flowFailed_effects emitted_def afterBlockhash_def
        split: if_splits flow.splits)
next
  case (SignSettled k r)
  then show ?thesis using assms
    by (cases r)
      (auto simp: flowFailed_effects emitted_def afterSign_def split: if_splits flow.splits)
next
  case (ConfirmSettled k r)
  then show ?thesis using assms
    by (cases r)
      (auto simp: flowFailed_effects emitted_def afterConfirm_def split: if_splits flow.splits)
next
  case (TimePasses n)
  then show ?thesis using assms elapse_effects [of n "pending s"]
    by (auto simp: emitted_click)
qed (insert assms, simp_all add: emitted_click split: if_splits)

lemma confirmation_origin:
  assumes "ConfirmTransaction g b h \<in> set (emitted recipient i s)"
  shows "\<exists>k sig. i = SignSettled k (Resolved sig) \<and> g = signatureOf sig
           \<and> k < length (pending s)
           \<and> pending s ! k = AwaitSign b h
           \<and> emitted recipient i s = [ConfirmTransaction g b h]"
proof (cases i)
  case (ClickCreateToken w)
  then show ?thesis using assms
    by (auto simp: flowFailed_effects emitted_click simulateScamFlow_def
        split: if_splits option.splits)
next
  case (ClickConnectWallet w)
  then show ?thesis using assms
    by (auto simp: connect_effects emitted_click split: if_splits)
next
  case (ConnectSettled c)
  then show ?thesis using assms
    by (auto simp: connect_effects emitted_click split: if_splits)
next
  case (BlockhashSettled k r)
  then show ?thesis using assms
    by (cases r)
      (auto simp: flowFailed_effects emitted_def afterBlockhash_def
        split: if_splits flow.splits)
next
  case (SignSettled k r)
  then show ?thesis using assms
    by (cases r)
      (auto simp: flowFailed_effects emitted_def afterSign_def split: if_splits flow.splits)
next
  case (ConfirmSettled k r)
  then show ?thesis using assms
    by (cases r)
      (auto simp: flowFailed_effects emitted_def afterConfirm_def split: if_splits flow.splits)
next
  case (TimePasses n)
  then show ?thesis using assms elapse_effects [of n "pending s"]
    by (auto simp: emitted_click)
qed (insert assms, simp_all add: emitted_click split: if_splits)

lemma held_reference:
  assumes "consistent s" and "pending (handle recipient i s) = [AwaitSign blockhash height]"
  shows "pending s = [AwaitSign blockhash height]
       \<or> (\<exists>tx'. emitted recipient i s = [SignAndSendTransaction tx']
              \<and> recentBlockhash tx' = blockhash)"
proof (cases "pending s")
  case Nil
  with assms(2) show ?thesis
    by (cases i) (auto simp: simulateScamFlow_def split: if_splits option.splits)
next
  case (Cons f fs)
  with assms(1) have s: "pending s = [f]" "step s = Processing"
    by (auto simp: consistent_def split: list.splits)
  show ?thesis
  proof (cases i)
    case (BlockhashSettled k r)
    with assms(2) s show ?thesis
      by (cases f; cases r)
        (auto simp: emitted_def continue_def afterBlockhash_def split: if_splits)
  next
    case (SignSettled k r)
    with assms(2) s show ?thesis
      by (cases f; cases r) (auto simp: continue_def afterSign_def split: if_splits)
  next
    case (ConfirmSettled k r)
    with assms(2) s show ?thesis
      by (cases f; cases r) (auto simp: continue_def afterConfirm_def split: if_splits)
  next
    case (TimePasses n)
    with assms(2) s show ?thesis
      by (cases f) (auto split: if_splits)
  qed (insert assms(2) s, auto split: if_splits)
qed

subsection \<open>Every step keeps the calls in order\<close>

lemma calls_append [simp]: "calls (xs @ ys) = calls xs @ calls ys"
  by (simp add: calls_def)

lemma calls_simps [simp]:
  "calls [] = []"
  "calls (e # es) = (if isPipelineCall e then e # calls es else calls es)"
  by (simp_all add: calls_def)

lemma calls_elapse [simp]: "calls (fst (elapse n fs)) = []"
  by (induction n fs rule: elapse.induct) (simp_all add: afterDelay_def)

lemma calls_flowFailed [simp]: "calls (flowFailed e) = []"
  by (simp add: flowFailed_def)

lemma calls_connect [simp]:
  "calls (fst (connectWallet w)) = []" "calls (afterConnect r) = []"
  by (simp_all add: connectWallet_def afterConnect_def connectFailed_def
      split: option.splits settled.splits)

lemma tracked_pageLoad: "tracked (pageLoad w)"
  by (simp add: tracked_def pageLoad_def initialPage_def mountEffect_def split: option.splits)

lemma tracked_quiet:
  assumes "tracked s" and "pending s' = pending s" and "calls (trace s') = calls (trace s)"
  shows "tracked s'"
  using assms by (simp add: tracked_def)

lemma tracked_handle:
  assumes "consistent s" and "tracked s"
  shows "tracked (handle recipient i s)"
proof (cases i)
  case ClickStart
  then show ?thesis using assms(2) by (auto intro: tracked_quiet)
next
  case (ClickConnectWallet w)
  then show ?thesis using assms(2) by (auto intro: tracked_quiet)
next
  case (ClickCreateToken w)
  show ?thesis
  proof (cases "step s = Form \<and> present (publicKey s) \<and> \<not> busy s")
    case False
    with ClickCreateToken assms(2) show ?thesis by auto
  next
    case True
    with assms(1) have "pending s = []"
      by (auto simp: consistent_def split: list.splits)
    with True ClickCreateToken assms(2) show ?thesis
      by (auto simp: tracked_def simulateScamFlow_def split: option.splits)
  qed
next
  case ClickGetRefund
  then show ?thesis using assms(2) by (auto intro: tracked_quiet)
next
  case ClickFinishDemo
  then show ?thesis using assms(2) by (auto intro: tracked_quiet)
next
  case ClickShowRedFlags
  then show ?thesis using assms(2) by (auto intro: tracked_quiet)
next
  case ClickCloseRedFlags
  then show ?thesis using assms(2) by (auto intro: tracked_quiet)
next
  case ClickToggleDetails
  then show ?thesis using assms(2) by (auto intro: tracked_quiet)
next
  case (ConnectSettled r)
  then show ?thesis using assms(2) by (auto intro: tracked_quiet)
next
  case (BlockhashSettled k r)
  show ?thesis
  proof (cases "k < length (pending s)")
    case False
    with BlockhashSettled assms(2) show ?thesis by simp
  next
    case True
    with assms(1) obtain f where f: "pending s = [f]" "k = 0"
      by (rule consistent_single)
    show ?thesis using assms(2) f BlockhashSettled
      by (cases f; cases r)
        (auto simp: tracked_def continue_def afterBlockhash_def)
  qed
next
  case (SignSettled k r)
  show ?thesis
  proof (cases "k < length (pending s)")
    case False
    with SignSettled assms(2) show ?thesis by simp
  next
    case True
    with assms(1) obtain f where f: "pending s = [f]" "k = 0"
      by (rule consistent_single)
    show ?thesis using assms(2) f SignSettled
      by (cases f; cases r)
        (auto simp: tracked_def continue_def afterSign_def)
  qed
next
  case (ConfirmSettled k r)
  show ?thesis
  proof (cases "k < length (pending s)")
    case False
    with ConfirmSettled assms(2) show ?thesis by simp
  next
    case True
    with assms(1) obtain f where f: "pending s = [f]" "k = 0"
      by (rule consistent_single)
    show ?thesis using assms(2) f ConfirmSettled
      by (cases f; cases r)
        (auto simp: tracked_def continue_def afterConfirm_def)
  qed
next
  case (TimePasses n)
  from assms(1) have "pending s = [] \<or> (\<exists>f. pending s = [f])"
    by (auto simp: consistent_def split: list.splits)
  then show ?thesis
  proof
    assume "pending s = []"
    with TimePasses assms(2) show ?thesis by (simp add: tracked_def)
  next
    assume "\<exists>f. pending s = [f]"
    then obtain f where "pending s = [f]" ..
    with TimePasses assms(2) show ?thesis
      by (cases f) (auto simp: tracked_def afterDelay_def)
  qed
qed

lemma tracked_run:
  "consistent s \<Longrightarrow> tracked s \<Longrightarrow> tracked (run recipient ins s)"
  by (induction ins arbitrary: s) (simp_all add: consistent_handle tracked_handle)

lemma tracked_reachable: "tracked (run recipient ins (pageLoad w))"
  by (rule tracked_run [OF consistent_pageLoad tracked_pageLoad])

lemma sequenced_suffix: "sequenced (xs @ ys) \<Longrightarrow> sequenced ys"
  by (induction xs) simp_all

lemma submission_preceded:
  assumes "sequenced (rev cs)" and "cs = before @ SignAndSendTransaction tx # after"
  shows "before \<noteq> [] \<and> last before = GetLatestBlockhash"
proof -
  from assms have "sequenced (rev after @ SignAndSendTransaction tx # rev before)"
    by simp
  then have "sequenced (SignAndSendTransaction tx # rev before)"
    by (rule sequenced_suffix)
  then show ?thesis
    by (simp add: hd_rev)
qed

lemma confirmation_preceded:
  assumes "sequenced (rev cs)" and "cs = before @ ConfirmTransaction g b h # after"
  shows "before \<noteq> [] \<and> submitted (last before) = Some b"
proof -
  from assms have "sequenced (rev after @ ConfirmTransaction g b h # rev before)"
    by simp
  then have "sequenced (ConfirmTransaction g b h # rev before)"
    by (rule sequenced_suffix)
  then show ?thesis
    by (simp add: hd_rev)
qed

lemma submitted_Some: "submitted e = Some b \<Longrightarrow> \<exists>tx. e = SignAndSendTransaction tx \<and> recentBlockhash tx = b"
  by (cases e) simp_all

lemma awaiting_origin:
  assumes "consistent s" and "pending (handle recipient i s) = [AwaitBlockhash payer]"
  shows "pending s = [AwaitBlockhash payer]
       \<or> (\<exists>p. i = ClickCreateToken (Some p) \<and> provider_publicKey p = Some payer
              \<and> pending s = []
              \<and> emitted recipient i s = [SetBusy True, SetStep Processing, GetLatestBlockhash])"
proof (cases "pending s")
  case Nil
  with assms(2) show ?thesis
    by (cases i)
      (auto simp: simulateScamFlow_def currentPublicKey_def emitted_def
        split: if_splits option.splits)
next
  case (Cons f fs)
  with assms(1) have s: "pending s = [f]" "step s = Processing"
    by (auto simp: consistent_def split: list.splits)
  show ?thesis
  proof (cases i)
    case (BlockhashSettled k r)
    with assms(2) s show ?thesis
      by (cases f; cases r) (auto simp: continue_def afterBlockhash_def split: if_splits)
  next
    case (SignSettled k r)
    with assms(2) s show ?thesis
      by (cases f; cases r) (auto simp: continue_def afterSign_def split: if_splits)
  next
    case (ConfirmSettled k r)
    with assms(2) s show ?thesis
      by (cases f; cases r) (auto simp: continue_def afterConfirm_def split: if_splits)
  next
    case (TimePasses n)
    with assms(2) s show ?thesis
      by (cases f) (auto split: if_splits)
  qed (insert assms(2) s, auto split: if_splits)
qed

lemma attempt_trace:
  assumes "consistent s" and "step s = Form" and "present (publicKey s)" and "\<not> busy s"
    and "provider_publicKey p = Some payer"
  shows "trace (run recipient [ClickCreateToken (Some p),
            BlockhashSettled 0 (Resolved (blockhash, height)),
            SignSettled 0 (Resolved sig)] s)
         = trace s @ [SetBusy True, SetStep Processing, GetLatestBlockhash,
             SignAndSendTransaction \<lparr> recentBlockhash = blockhash, feePayer = payer,
               instructions =
                 [\<lparr> fromPubkey = payer, toPubkey = recipient, lamports = 1000000 \<rparr>] \<rparr>,
             ConfirmTransaction (signatureOf sig) blockhash height]"
proof -
  from assms(1,4) have "pending s = []"
    by (auto simp: consistent_def split: list.splits)
  with assms(2-5) show ?thesis
    by (simp add: simulateScamFlow_def currentPublicKey_def continue_def afterBlockhash_def
        afterSign_def)
qed

lemma trace_handle: "trace (handle recipient i s) = trace s @ emitted recipient i s"
  by (cases i) (auto simp: emitted_def split: flow.splits)

lemma transfers_handle:
  assumes "\<forall>tx. SignAndSendTransaction tx \<in> set (trace s) \<longrightarrow>
             instructions tx =
               [\<lparr> fromPubkey = feePayer tx, toPubkey = recipient, lamports = 1000000 \<rparr>]"
  shows "\<forall>tx. SignAndSendTransaction tx \<in> set (trace (handle recipient i s)) \<longrightarrow>
             instructions tx =
               [\<lparr> fromPubkey = feePayer tx, toPubkey = recipient, lamports = 1000000 \<rparr>]"
  using assms submission_origin [of _ recipient i s]
  by (auto simp: trace_handle)

lemma transfers_run:
  assumes "\<forall>tx. SignAndSendTransaction tx \<in> set (trace s) \<longrightarrow>
             instructions tx =
               [\<lparr> fromPubkey = feePayer tx, toPubkey = recipient, lamports = 1000000 \<rparr>]"
  shows "\<forall>tx. SignAndSendTransaction tx \<in> set (trace (run recipient ins s)) \<longrightarrow>
             instructions tx =
               [\<lparr> fromPubkey = feePayer tx, toPubkey = recipient, lamports = 1000000 \<rparr>]"
  using assms
proof (induction ins arbitrary: s)
  case Nil
  then show ?case by simp
next
  case (Cons i ins)
  from Cons.prems have "\<forall>tx. SignAndSendTransaction tx \<in> set (trace (handle recipient i s)) \<longrightarrow>
             instructions tx =
               [\<lparr> fromPubkey = feePayer tx, toPubkey = recipient, lamports = 1000000 \<rparr>]"
    by (rule transfers_handle)
  then show ?case
    using Cons.IH [of "handle recipient i s"] by simp
qed

lemma transfers_reachable:
  "SignAndSendTransaction tx \<in> set (trace (run recipient ins (pageLoad w))) \<Longrightarrow>
     instructions tx = [\<lparr> fromPubkey = feePayer tx, toPubkey = recipient, lamports = 1000000 \<rparr>]"
proof -
  have "\<forall>tx. SignAndSendTransaction tx \<in> set (trace (pageLoad w)) \<longrightarrow>
             instructions tx =
               [\<lparr> fromPubkey = feePayer tx, toPubkey = recipient, lamports = 1000000 \<rparr>]"
    by (auto simp: pageLoad_def initialPage_def mountEffect_def split: option.splits if_splits)
  from transfers_run [OF this] show "SignAndSendTransaction tx \<in> set (trace (run recipient ins (pageLoad w))) \<Longrightarrow>
     instructions tx = [\<lparr> fromPubkey = feePayer tx, toPubkey = recipient, lamports = 1000000 \<rparr>]"
    by blast
qed

subsection \<open>An invocation that waits for its confirmation\<close>

lemma waiting_handle:
  assumes "pending s = [AwaitConfirm signature]" "step s = Processing" "busy s"
    and "\<not> isConfirmSettled i"
  shows "pending (handle recipient i s) = [AwaitConfirm signature]
       \<and> step (handle recipient i s) = Processing \<and> busy (handle recipient i s)"
proof (cases i)
  case (ClickConnectWallet w)
  with assms show ?thesis
    by (auto simp: connectWallet_def connectFailed_def split: option.splits)
next
  case (ConnectSettled r)
  with assms show ?thesis
    by (cases r) (auto simp: afterConnect_def connectFailed_def)
qed (insert assms, auto)

lemma waiting_run:
  assumes "pending s = [AwaitConfirm signature]" "step s = Processing" "busy s"
    and "\<forall>i \<in> set later. \<not> isConfirmSettled i"
  shows "pending (run recipient later s) = [AwaitConfirm signature]
       \<and> step (run recipient later s) = Processing \<and> busy (run recipient later s)"
  using assms
proof (induction later arbitrary: s)
  case Nil
  then show ?case by simp
next
  case (Cons i later)
  from Cons.prems have "pending (handle recipient i s) = [AwaitConfirm signature]
       \<and> step (handle recipient i s) = Processing \<and> busy (handle recipient i s)"
    by (intro waiting_handle) simp_all
  with Cons.IH [of "handle recipient i s"] Cons.prems(4) show ?case
    by simp
qed

lemmas sample_defs = phantom_def untilSubmitted_def untilConfirming_def untilError_def

lemmas page_defs = pageLoad_def mountEffect_def initialPage_def simulateScamFlow_def
  currentPublicKey_def continue_def afterBlockhash_def afterSign_def afterConfirm_def
  afterDelay_def flowFailed_def signatureOf_def emitted_def connectWallet_def
  connectFailed_def afterConnect_def

lemma stripPrefix_append [simp]: "stripPrefix p (p @ r) = Some r"
  by (induction p) simp_all

section \<open>The claims\<close>

text \<open>
  Claim C1. In every run of the page in which the wallet answers the submission with a
  signature (a non-empty string, given as such or as the \<^verbatim>\<open>signature\<close> property of an
  object) and the confirmation of that signature resolves, \<open>txSig\<close> is set to that
  signature while the step is still \<open>Processing\<close>; when the 1200 milliseconds have
  passed the step becomes \<open>Error\<close>; the refund button then leads to \<open>RefundFunnel\<close> and
  the finish button to \<open>Done\<close>; and \<open>txSig\<close> equals that signature at each of these
  steps, and after any further inputs whatsoever.
\<close>

theorem confirmed_payment_ends_in_error:
  assumes "s = run recipient ins (pageLoad w)"
    and "k < length (pending s)"
    and "pending s ! k = AwaitSign blockhash height"
    and "sig = Str signature \<or> sig = Obj (Str signature)"
    and "signature \<noteq> []"
    and "1200 \<le> n"
  shows "step (run recipient [SignSettled k (Resolved sig)] s) = Processing
       \<and> step (run recipient [SignSettled k (Resolved sig), ConfirmSettled k (Resolved err)] s)
           = Processing
       \<and> txSig (run recipient [SignSettled k (Resolved sig), ConfirmSettled k (Resolved err)] s)
           = Str signature
       \<and> (\<forall>later. txSig (run recipient later
              (run recipient [SignSettled k (Resolved sig), ConfirmSettled k (Resolved err)] s))
            = Str signature)
       \<and> step (run recipient [SignSettled k (Resolved sig), ConfirmSettled k (Resolved err),
                  TimePasses n] s) = Error
       \<and> trace (run recipient [SignSettled k (Resolved sig), ConfirmSettled k (Resolved err),
                  TimePasses n] s)
           = trace s @ [ConfirmTransaction (Str signature) blockhash height,
                        SetTxSig (Str signature), SetTimeout 1200, SetStep Error, SetBusy False]
       \<and> step (run recipient [SignSettled k (Resolved sig), ConfirmSettled k (Resolved err),
                  TimePasses n, ClickGetRefund] s) = RefundFunnel
       \<and> txSig (run recipient [SignSettled k (Resolved sig), ConfirmSettled k (Resolved err),
                  TimePasses n, ClickGetRefund] s) = Str signature
       \<and> step (run recipient [SignSettled k (Resolved sig), ConfirmSettled k (Resolved err),
                  TimePasses n, ClickGetRefund, ClickFinishDemo] s) = Done
       \<and> txSig (run recipient [SignSettled k (Resolved sig), ConfirmSettled k (Resolved err),
                  TimePasses n, ClickGetRefund, ClickFinishDemo] s) = Str signature"
proof -
  have c: "consistent s"
    using assms(1) by (simp add: consistent_reachable)
  note w = awaiting_sign [OF c assms(2,3)]
  have g: "signatureOf sig = Str signature"
    using assms(4,5) by (auto simp: signatureOf_def)
  let ?s2 = "run recipient [SignSettled k (Resolved sig), ConfirmSettled k (Resolved err)] s"
  have s2: "txSig ?s2 = Str signature" "step ?s2 = Processing"
    using w g by (simp_all add: continue_def afterSign_def afterConfirm_def)
  have "consistent ?s2"
    using c by (rule consistent_run)
  then have stable: "\<forall>later. txSig (run recipient later ?s2) = Str signature"
    using s2(1) by (simp add: txSig_frozen_run)
  have rest: "step (run recipient [SignSettled k (Resolved sig)] s) = Processing"
    "step (run recipient [SignSettled k (Resolved sig), ConfirmSettled k (Resolved err),
                  TimePasses n] s) = Error"
    "trace (run recipient [SignSettled k (Resolved sig), ConfirmSettled k (Resolved err),
                  TimePasses n] s)
           = trace s @ [ConfirmTransaction (Str signature) blockhash height,
                        SetTxSig (Str signature), SetTimeout 1200, SetStep Error, SetBusy False]"
    "step (run recipient [SignSettled k (Resolved sig), ConfirmSettled k (Resolved err),
                  TimePasses n, ClickGetRefund] s) = RefundFunnel"
    "txSig (run recipient [SignSettled k (Resolved sig), ConfirmSettled k (Resolved err),
                  TimePasses n, ClickGetRefund] s) = Str signature"
    "step (run recipient [SignSettled k (Resolved sig), ConfirmSettled k (Resolved err),
                  TimePasses n, ClickGetRefund, ClickFinishDemo] s) = Done"
    "txSig (run recipient [SignSettled k (Resolved sig), ConfirmSettled k (Resolved err),
                  TimePasses n, ClickGetRefund, ClickFinishDemo] s) = Str signature"
    using w g assms(6)
    by (simp_all add: continue_def afterSign_def afterConfirm_def afterDelay_def)
  from s2 stable rest show ?thesis by simp
qed

theorem confirmed_payment_ends_in_error_witness:
  "0 < length (pending (run ''TO'' untilSubmitted (pageLoad phantom)))
   \<and> pending (run ''TO'' untilSubmitted (pageLoad phantom)) ! 0 = AwaitSign ''BH1'' 100
   \<and> ''SIG1'' \<noteq> [] \<and> ''SIG2'' \<noteq> []
   \<and> (1200::nat) \<le> 1200
   \<and> step (run ''TO'' [SignSettled 0 (Resolved (Obj (Str ''SIG1''))),
         ConfirmSettled 0 (Resolved None), TimePasses 1200]
         (run ''TO'' untilSubmitted (pageLoad phantom))) = Error
   \<and> txSig (run ''TO'' [SignSettled 0 (Resolved (Obj (Str ''SIG1''))),
         ConfirmSettled 0 (Resolved None), TimePasses 1200, ClickGetRefund, ClickFinishDemo]
         (run ''TO'' untilSubmitted (pageLoad phantom))) = Str ''SIG1''
   \<and> txSig (run ''TO'' [SignSettled 0 (Resolved (Str ''SIG2'')),
         ConfirmSettled 0 (Resolved None), TimePasses 1200, ClickGetRefund, ClickFinishDemo]
         (run ''TO'' untilSubmitted (pageLoad phantom))) = Str ''SIG2''"
  using confirmed_payment_ends_in_error [OF refl, where recipient = "''TO''"
      and ins = untilSubmitted and w = phantom and k = 0 and blockhash = "''BH1''"
      and height = 100 and sig = "Obj (Str ''SIG1'')" and signature = "''SIG1''"
      and n = 1200 and err = None]
    confirmed_payment_ends_in_error [OF refl, where recipient = "''TO''"
      and ins = untilSubmitted and w = phantom and k = 0 and blockhash = "''BH1''"
      and height = 100 and sig = "Str ''SIG2''" and signature = "''SIG2''"
      and n = 1200 and err = None]
  by (simp add: page_defs sample_defs)

text \<open>
  Claim C2. When the page holds no public key (\<open>publicKey\<close> is null or empty), the
  submit button is disabled: a submit changes nothing at all, so it performs no effect
  (no reference fetch, no call to the wallet) and the step stays what it was, \<open>Form\<close>.
  And whenever the wallet itself reports no key, an invocation of \<^verbatim>\<open>simulateScamFlow\<close>
  fetches no reference, calls no \<^verbatim>\<open>signAndSendTransaction\<close>, suspends nothing, and a page
  that was in \<open>Form\<close> is in \<open>Form\<close> afterwards.
\<close>

theorem submit_without_wallet:
  "(\<not> present (publicKey s) \<longrightarrow>
      handle recipient (ClickCreateToken w) s = s
      \<and> emitted recipient (ClickCreateToken w) s = [])
   \<and> (currentPublicKey w = None \<longrightarrow>
        GetLatestBlockhash \<notin> set (emitted recipient (ClickCreateToken w) s)
        \<and> (\<forall>tx. SignAndSendTransaction tx \<notin> set (emitted recipient (ClickCreateToken w) s))
        \<and> pending (handle recipient (ClickCreateToken w) s) = pending s
        \<and> (step s = Form \<longrightarrow> step (handle recipient (ClickCreateToken w) s) = Form))"
  by (auto simp: simulateScamFlow_def flowFailed_def emitted_def)

theorem submit_without_wallet_witness:
  "\<not> present (publicKey (run ''TO'' [ClickStart] (pageLoad None)))
   \<and> step (run ''TO'' [ClickStart] (pageLoad None)) = Form
   \<and> currentPublicKey None = None
   \<and> handle ''TO'' (ClickCreateToken None) (run ''TO'' [ClickStart] (pageLoad None))
       = run ''TO'' [ClickStart] (pageLoad None)
   \<and> emitted ''TO'' (ClickCreateToken None) (run ''TO'' [ClickStart] (pageLoad None)) = []
   \<and> step (handle ''TO'' (ClickCreateToken None) (run ''TO'' [ClickStart] (pageLoad None))) = Form"
  using submit_without_wallet [of "run ''TO'' [ClickStart] (pageLoad None)" "''TO''" None]
  by (simp add: page_defs)

text \<open>
  Claim C3. At most one payment is in flight at any time. In every run of the page at
  most one invocation of \<^verbatim>\<open>simulateScamFlow\<close> is suspended, \<open>busy\<close> is set exactly while
  one is (so it has been cleared on every path by which an invocation ends), and the
  step is then \<open>Processing\<close>. While \<open>busy\<close> is set a submit changes nothing. The first
  effect of an invocation is \<^verbatim>\<open>setBusy(true)\<close>, and both ways an invocation ends (the
  \<^verbatim>\<open>catch\<close> and \<^verbatim>\<open>finally\<close> blocks after any thrown value, and the return after the
  delay) leave \<open>busy\<close> cleared.
\<close>

theorem one_payment_in_flight:
  "length (pending (run recipient ins (pageLoad w))) \<le> 1
   \<and> busy (run recipient ins (pageLoad w)) = (pending (run recipient ins (pageLoad w)) \<noteq> [])
   \<and> (pending (run recipient ins (pageLoad w)) \<noteq> [] \<longrightarrow>
        step (run recipient ins (pageLoad w)) = Processing)
   \<and> (busy s \<longrightarrow> handle recipient (ClickCreateToken w') s = s)
   \<and> hd (fst (simulateScamFlow w')) = SetBusy True
   \<and> \<not> busy (perform (flowFailed e) s)
   \<and> \<not> busy (perform afterDelay s)"
proof -
  have "consistent (run recipient ins (pageLoad w))"
    by (rule consistent_reachable)
  then have "length (pending (run recipient ins (pageLoad w))) \<le> 1
   \<and> busy (run recipient ins (pageLoad w)) = (pending (run recipient ins (pageLoad w)) \<noteq> [])
   \<and> (pending (run recipient ins (pageLoad w)) \<noteq> [] \<longrightarrow>
        step (run recipient ins (pageLoad w)) = Processing)"
    by (auto simp: consistent_def split: list.splits)
  moreover have "hd (fst (simulateScamFlow w')) = SetBusy True"
    by (simp add: simulateScamFlow_def split: option.splits)
  moreover have "\<not> busy (perform (flowFailed e) s)" "\<not> busy (perform afterDelay s)"
    by (simp_all add: flowFailed_def afterDelay_def)
  ultimately show ?thesis by simp
qed

theorem one_payment_in_flight_witness:
  "pending (run ''TO'' untilConfirming (pageLoad phantom)) = [AwaitConfirm (Str ''SIG1'')]
   \<and> busy (run ''TO'' untilConfirming (pageLoad phantom))
   \<and> step (run ''TO'' untilConfirming (pageLoad phantom)) = Processing
   \<and> handle ''TO'' (ClickCreateToken phantom) (run ''TO'' untilConfirming (pageLoad phantom))
       = run ''TO'' untilConfirming (pageLoad phantom)
   \<and> \<not> busy (run ''TO'' untilError (pageLoad phantom))
   \<and> pending (run ''TO'' untilError (pageLoad phantom)) = []"
  using one_payment_in_flight [of "''TO''" untilConfirming phantom
      "run ''TO'' untilConfirming (pageLoad phantom)" phantom Undefined]
  by (simp add: page_defs sample_defs)

text \<open>
  Claim C4. In every run of the page: a reference is fetched only by a submit that
  enters \<open>Processing\<close> with nothing else in flight, as the first call of that
  invocation; a transaction is submitted only in the step in which the ledger's answer
  to that fetch arrives, and it carries exactly the blockhash of that answer, so no
  reference kept from an earlier attempt can be used; a confirmation is requested only
  for the blockhash and height the invocation holds since its submission; the
  reference an invocation holds while the wallet signs is the one it has just
  submitted; and an invocation waits for a reference only from the submit that issued
  the fetch. An attempt started from the form with a wallet key performs, in this
  order, the fetch, the submission with the blockhash the ledger answers, and the
  confirmation request with the same blockhash and height. In the history of every
  run, among the calls to ledger and wallet, each submission stands directly after a
  fetch, and each confirmation request directly after the submission of a transaction
  with the same blockhash.
\<close>

theorem reference_fetched_for_each_submission:
  assumes "s = run recipient ins (pageLoad w)"
  shows "(GetLatestBlockhash \<in> set (emitted recipient i s) \<longrightarrow>
            (\<exists>w' payer. i = ClickCreateToken w' \<and> currentPublicKey w' = Some payer
               \<and> pending s = [] \<and> pending (handle recipient i s) = [AwaitBlockhash payer]
               \<and> emitted recipient i s = [SetBusy True, SetStep Processing, GetLatestBlockhash]))
       \<and> (SignAndSendTransaction tx \<in> set (emitted recipient i s) \<longrightarrow>
            (\<exists>height. i = BlockhashSettled 0 (Resolved (recentBlockhash tx, height))
               \<and> pending s = [AwaitBlockhash (feePayer tx)]
               \<and> pending (handle recipient i s) = [AwaitSign (recentBlockhash tx) height]
               \<and> emitted recipient i s = [SignAndSendTransaction tx]))
       \<and> (ConfirmTransaction signature blockhash height \<in> set (emitted recipient i s) \<longrightarrow>
            (\<exists>sig. i = SignSettled 0 (Resolved sig) \<and> signature = signatureOf sig
               \<and> pending s = [AwaitSign blockhash height]
               \<and> emitted recipient i s = [ConfirmTransaction signature blockhash height]))
       \<and> (pending (handle recipient i s) = [AwaitSign blockhash height] \<longrightarrow>
            pending s = [AwaitSign blockhash height]
            \<or> (\<exists>tx'. emitted recipient i s = [SignAndSendTransaction tx']
                  \<and> recentBlockhash tx' = blockhash))
       \<and> (pending (handle recipient i s) = [AwaitBlockhash payer] \<longrightarrow>
            pending s = [AwaitBlockhash payer]
            \<or> (\<exists>p. i = ClickCreateToken (Some p) \<and> provider_publicKey p = Some payer
                  \<and> pending s = []
                  \<and> emitted recipient i s
                      = [SetBusy True, SetStep Processing, GetLatestBlockhash]))
       \<and> (step s = Form \<and> present (publicKey s) \<and> \<not> busy s
            \<and> provider_publicKey p = Some payer \<longrightarrow>
            trace (run recipient [ClickCreateToken (Some p),
                BlockhashSettled 0 (Resolved (blockhash, height)),
                SignSettled 0 (Resolved sig)] s)
              = trace s @ [SetBusy True, SetStep Processing, GetLatestBlockhash,
                  SignAndSendTransaction \<lparr> recentBlockhash = blockhash, feePayer = payer,
                    instructions =
                      [\<lparr> fromPubkey = payer, toPubkey = recipient, lamports = 1000000 \<rparr>] \<rparr>,
                  ConfirmTransaction (signatureOf sig) blockhash height])
       \<and> (calls (trace s) = before @ SignAndSendTransaction tx # after \<longrightarrow>
            before \<noteq> [] \<and> last before = GetLatestBlockhash)
       \<and> (calls (trace s) = before @ ConfirmTransaction signature blockhash height # after \<longrightarrow>
            before \<noteq> []
            \<and> (\<exists>tx'. last before = SignAndSendTransaction tx'
                  \<and> recentBlockhash tx' = blockhash))"
proof -
  have c: "consistent s"
    using assms by (simp add: consistent_reachable)
  have t: "sequenced (rev (calls (trace s)))"
    using assms tracked_reachable [of recipient ins w] by (simp add: tracked_def)
  have fetch: "\<exists>w' payer. i = ClickCreateToken w' \<and> currentPublicKey w' = Some payer
               \<and> pending s = [] \<and> pending (handle recipient i s) = [AwaitBlockhash payer]
               \<and> emitted recipient i s = [SetBusy True, SetStep Processing, GetLatestBlockhash]"
    if "GetLatestBlockhash \<in> set (emitted recipient i s)"
  proof -
    from fetch_origin [OF that] obtain w' payer where
      *: "i = ClickCreateToken w'" "currentPublicKey w' = Some payer" "\<not> busy s"
         "emitted recipient i s = [SetBusy True, SetStep Processing, GetLatestBlockhash]"
         "pending (handle recipient i s) = pending s @ [AwaitBlockhash payer]"
      by blast
    from c *(3) have "pending s = []"
      by (auto simp: consistent_def split: list.splits)
    with * show ?thesis by simp
  qed
  have submit: "\<exists>height. i = BlockhashSettled 0 (Resolved (recentBlockhash tx, height))
               \<and> pending s = [AwaitBlockhash (feePayer tx)]
               \<and> pending (handle recipient i s) = [AwaitSign (recentBlockhash tx) height]
               \<and> emitted recipient i s = [SignAndSendTransaction tx]"
    if "SignAndSendTransaction tx \<in> set (emitted recipient i s)"
  proof -
    from submission_origin [OF that] obtain k height where
      *: "i = BlockhashSettled k (Resolved (recentBlockhash tx, height))"
         "k < length (pending s)" "pending s ! k = AwaitBlockhash (feePayer tx)"
         "emitted recipient i s = [SignAndSendTransaction tx]"
         "pending (handle recipient i s) = (pending s)[k := AwaitSign (recentBlockhash tx) height]"
      by blast
    from c *(2) obtain f where "pending s = [f]" "k = 0"
      by (rule consistent_single)
    with * show ?thesis by simp
  qed
  have confirm: "\<exists>sig. i = SignSettled 0 (Resolved sig) \<and> signature = signatureOf sig
               \<and> pending s = [AwaitSign blockhash height]
               \<and> emitted recipient i s = [ConfirmTransaction signature blockhash height]"
    if "ConfirmTransaction signature blockhash height \<in> set (emitted recipient i s)"
  proof -
    from confirmation_origin [OF that] obtain k sig where
      *: "i = SignSettled k (Resolved sig)" "signature = signatureOf sig"
         "k < length (pending s)" "pending s ! k = AwaitSign blockhash height"
         "emitted recipient i s = [ConfirmTransaction signature blockhash height]"
      by blast
    from c *(3) obtain f where "pending s = [f]" "k = 0"
      by (rule consistent_single)
    with * show ?thesis by simp
  qed
  have held: "pending s = [AwaitSign blockhash height]
            \<or> (\<exists>tx'. emitted recipient i s = [SignAndSendTransaction tx']
                  \<and> recentBlockhash tx' = blockhash)"
    if "pending (handle recipient i s) = [AwaitSign blockhash height]"
    using c that by (rule held_reference)
  have origin: "pending s = [AwaitBlockhash payer]
            \<or> (\<exists>p. i = ClickCreateToken (Some p) \<and> provider_publicKey p = Some payer
                  \<and> pending s = []
                  \<and> emitted recipient i s
                      = [SetBusy True, SetStep Processing, GetLatestBlockhash])"
    if "pending (handle recipient i s) = [AwaitBlockhash payer]"
    using c that by (rule awaiting_origin)
  have attempt: "trace (run recipient [ClickCreateToken (Some p),
                BlockhashSettled 0 (Resolved (blockhash, height)),
                SignSettled 0 (Resolved sig)] s)
              = trace s @ [SetBusy True, SetStep Processing, GetLatestBlockhash,
                  SignAndSendTransaction \<lparr> recentBlockhash = blockhash, feePayer = payer,
                    instructions =
                      [\<lparr> fromPubkey = payer, toPubkey = recipient, lamports = 1000000 \<rparr>] \<rparr>,
                  ConfirmTransaction (signatureOf sig) blockhash height]"
    if "step s = Form \<and> present (publicKey s) \<and> \<not> busy s \<and> provider_publicKey p = Some payer"
    using c that by (intro attempt_trace) simp_all
  have before_submit: "before \<noteq> [] \<and> last before = GetLatestBlockhash"
    if "calls (trace s) = before @ SignAndSendTransaction tx # after"
    using t that by (rule submission_preceded)
  have before_confirm: "before \<noteq> []
            \<and> (\<exists>tx'. last before = SignAndSendTransaction tx'
                  \<and> recentBlockhash tx' = blockhash)"
    if "calls (trace s) = before @ ConfirmTransaction signature blockhash height # after"
    using confirmation_preceded [OF t that] submitted_Some by blast
  from fetch submit confirm held origin attempt before_submit before_confirm
  show ?thesis by blast
qed

theorem reference_fetched_for_each_submission_witness:
  "GetLatestBlockhash \<in> set (emitted ''TO'' (ClickCreateToken phantom)
       (run ''TO'' [ClickStart] (pageLoad phantom)))
   \<and> SignAndSendTransaction \<lparr> recentBlockhash = ''BH2'', feePayer = ''PK'', instructions =
          [\<lparr> fromPubkey = ''PK'', toPubkey = ''TO'', lamports = 1000000 \<rparr>] \<rparr>
       \<in> set (emitted ''TO'' (BlockhashSettled 0 (Resolved (''BH2'', 200)))
             (run ''TO'' (untilSubmitted @
                 [SignSettled 0 (Rejected (Obj (Str ''User rejected the request.''))),
                  ClickCreateToken phantom]) (pageLoad phantom)))
   \<and> pending (handle ''TO'' (BlockhashSettled 0 (Resolved (''BH2'', 200)))
             (run ''TO'' (untilSubmitted @
                 [SignSettled 0 (Rejected (Obj (Str ''User rejected the request.''))),
                  ClickCreateToken phantom]) (pageLoad phantom)))
       = [AwaitSign ''BH2'' 200]
   \<and> ConfirmTransaction (Str ''SIG1'') ''BH1'' 100
       \<in> set (emitted ''TO'' (SignSettled 0 (Resolved (Obj (Str ''SIG1''))))
             (run ''TO'' untilSubmitted (pageLoad phantom)))
   \<and> pending (run ''TO'' untilSubmitted (pageLoad phantom)) = [AwaitSign ''BH1'' 100]
   \<and> pending (handle ''TO'' (ClickCreateToken phantom) (run ''TO'' [ClickStart] (pageLoad phantom)))
       = [AwaitBlockhash ''PK'']
   \<and> step (run ''TO'' [ClickStart] (pageLoad phantom)) = Form
   \<and> present (publicKey (run ''TO'' [ClickStart] (pageLoad phantom)))
   \<and> \<not> busy (run ''TO'' [ClickStart] (pageLoad phantom))
   \<and> provider_publicKey \<lparr> isPhantom = False, isCoinbase = False, isBackpack = True,
         isConnected = True, provider_publicKey = Some ''PK2'' \<rparr> = Some ''PK2''
   \<and> trace (run ''TO'' [ClickCreateToken (Some \<lparr> isPhantom = False, isCoinbase = False,
           isBackpack = True, isConnected = True, provider_publicKey = Some ''PK2'' \<rparr>),
         BlockhashSettled 0 (Resolved (''BH3'', 300)), SignSettled 0 (Resolved (Str ''SIG3''))]
         (run ''TO'' [ClickStart] (pageLoad phantom)))
       = trace (run ''TO'' [ClickStart] (pageLoad phantom))
         @ [SetBusy True, SetStep Processing, GetLatestBlockhash,
            SignAndSendTransaction \<lparr> recentBlockhash = ''BH3'', feePayer = ''PK2'', instructions =
              [\<lparr> fromPubkey = ''PK2'', toPubkey = ''TO'', lamports = 1000000 \<rparr>] \<rparr>,
            ConfirmTransaction (Str ''SIG3'') ''BH3'' 300]
   \<and> calls (trace (run ''TO'' untilConfirming (pageLoad phantom)))
       = [GetLatestBlockhash] @ SignAndSendTransaction \<lparr> recentBlockhash = ''BH1'',
            feePayer = ''PK'', instructions =
              [\<lparr> fromPubkey = ''PK'', toPubkey = ''TO'', lamports = 1000000 \<rparr>] \<rparr>
           # [ConfirmTransaction (Str ''SIG1'') ''BH1'' 100]
   \<and> calls (trace (run ''TO'' untilConfirming (pageLoad phantom)))
       = [GetLatestBlockhash, SignAndSendTransaction \<lparr> recentBlockhash = ''BH1'',
            feePayer = ''PK'', instructions =
              [\<lparr> fromPubkey = ''PK'', toPubkey = ''TO'', lamports = 1000000 \<rparr>] \<rparr>]
           @ ConfirmTransaction (Str ''SIG1'') ''BH1'' 100 # []"
proof -
  note c2 = conjunct2
  note fresh = reference_fetched_for_each_submission [OF refl, where recipient = "''TO''"
      and ins = "[ClickStart]" and w = phantom and i = "ClickCreateToken phantom"
      and payer = "''PK''"]
  note retry = reference_fetched_for_each_submission [OF refl, where recipient = "''TO''"
      and ins = "untilSubmitted @
          [SignSettled 0 (Rejected (Obj (Str ''User rejected the request.''))),
           ClickCreateToken phantom]"
      and w = phantom and i = "BlockhashSettled 0 (Resolved (''BH2'', 200))"
      and tx = "\<lparr> recentBlockhash = ''BH2'', feePayer = ''PK'', instructions =
          [\<lparr> fromPubkey = ''PK'', toPubkey = ''TO'', lamports = 1000000 \<rparr>] \<rparr>"
      and blockhash = "''BH2''" and height = 200]
  note signed = reference_fetched_for_each_submission [OF refl, where recipient = "''TO''"
      and ins = untilSubmitted and w = phantom
      and i = "SignSettled 0 (Resolved (Obj (Str ''SIG1'')))"
      and signature = "Str ''SIG1''" and blockhash = "''BH1''" and height = 100]
  note other = reference_fetched_for_each_submission [OF refl, where recipient = "''TO''"
      and ins = "[ClickStart]" and w = phantom
      and p = "\<lparr> isPhantom = False, isCoinbase = False, isBackpack = True,
         isConnected = True, provider_publicKey = Some ''PK2'' \<rparr>"
      and payer = "''PK2''" and blockhash = "''BH3''" and height = 300
      and sig = "Str ''SIG3''"]
  note hist1 = reference_fetched_for_each_submission [OF refl, where recipient = "''TO''"
      and ins = untilConfirming and w = phantom
      and before = "[GetLatestBlockhash]"
      and tx = "\<lparr> recentBlockhash = ''BH1'', feePayer = ''PK'', instructions =
          [\<lparr> fromPubkey = ''PK'', toPubkey = ''TO'', lamports = 1000000 \<rparr>] \<rparr>"
      and after = "[ConfirmTransaction (Str ''SIG1'') ''BH1'' 100]"]
  note hist2 = reference_fetched_for_each_submission [OF refl, where recipient = "''TO''"
      and ins = untilConfirming and w = phantom
      and before = "[GetLatestBlockhash, SignAndSendTransaction \<lparr> recentBlockhash = ''BH1'',
            feePayer = ''PK'', instructions =
              [\<lparr> fromPubkey = ''PK'', toPubkey = ''TO'', lamports = 1000000 \<rparr>] \<rparr>]"
      and signature = "Str ''SIG1''" and blockhash = "''BH1''" and height = 100
      and after = "[]"]
  have 1: "GetLatestBlockhash \<in> set (emitted ''TO'' (ClickCreateToken phantom)
       (run ''TO'' [ClickStart] (pageLoad phantom)))
     \<and> pending (handle ''TO'' (ClickCreateToken phantom) (run ''TO'' [ClickStart] (pageLoad phantom)))
       = [AwaitBlockhash ''PK'']"
    using fresh [THEN conjunct1] fresh [THEN c2, THEN c2, THEN c2, THEN c2, THEN conjunct1]
    by (simp add: page_defs sample_defs)
  have 2: "SignAndSendTransaction \<lparr> recentBlockhash = ''BH2'', feePayer = ''PK'', instructions =
          [\<lparr> fromPubkey = ''PK'', toPubkey = ''TO'', lamports = 1000000 \<rparr>] \<rparr>
       \<in> set (emitted ''TO'' (BlockhashSettled 0 (Resolved (''BH2'', 200)))
             (run ''TO'' (untilSubmitted @
                 [SignSettled 0 (Rejected (Obj (Str ''User rejected the request.''))),
                  ClickCreateToken phantom]) (pageLoad phantom)))
     \<and> pending (handle ''TO'' (BlockhashSettled 0 (Resolved (''BH2'', 200)))
             (run ''TO'' (untilSubmitted @
                 [SignSettled 0 (Rejected (Obj (Str ''User rejected the request.''))),
                  ClickCreateToken phantom]) (pageLoad phantom)))
       = [AwaitSign ''BH2'' 200]"
    using retry [THEN c2, THEN conjunct1] retry [THEN c2, THEN c2, THEN c2, THEN conjunct1]
    by (simp add: page_defs sample_defs)
  have 3: "ConfirmTransaction (Str ''SIG1'') ''BH1'' 100
       \<in> set (emitted ''TO'' (SignSettled 0 (Resolved (Obj (Str ''SIG1''))))
             (run ''TO'' untilSubmitted (pageLoad phantom)))
     \<and> pending (run ''TO'' untilSubmitted (pageLoad phantom)) = [AwaitSign ''BH1'' 100]"
    using signed [THEN c2, THEN c2, THEN conjunct1]
    by (simp add: page_defs sample_defs)
  have 4: "step (run ''TO'' [ClickStart] (pageLoad phantom)) = Form
     \<and> present (publicKey (run ''TO'' [ClickStart] (pageLoad phantom)))
     \<and> \<not> busy (run ''TO'' [ClickStart] (pageLoad phantom))
     \<and> provider_publicKey \<lparr> isPhantom = False, isCoinbase = False, isBackpack = True,
         isConnected = True, provider_publicKey = Some ''PK2'' \<rparr> = Some ''PK2''
     \<and> trace (run ''TO'' [ClickCreateToken (Some \<lparr> isPhantom = False, isCoinbase = False,
           isBackpack = True, isConnected = True, provider_publicKey = Some ''PK2'' \<rparr>),
         BlockhashSettled 0 (Resolved (''BH3'', 300)), SignSettled 0 (Resolved (Str ''SIG3''))]
         (run ''TO'' [ClickStart] (pageLoad phantom)))
       = trace (run ''TO'' [ClickStart] (pageLoad phantom))
         @ [SetBusy True, SetStep Processing, GetLatestBlockhash,
            SignAndSendTransaction \<lparr> recentBlockhash = ''BH3'', feePayer = ''PK2'', instructions =
              [\<lparr> fromPubkey = ''PK2'', toPubkey = ''TO'', lamports = 1000000 \<rparr>] \<rparr>,
            ConfirmTransaction (Str ''SIG3'') ''BH3'' 300]"
    using other [THEN c2, THEN c2, THEN c2, THEN c2, THEN c2, THEN conjunct1]
    by (simp add: page_defs sample_defs)
  have 5: "calls (trace (run ''TO'' untilConfirming (pageLoad phantom)))
       = [GetLatestBlockhash] @ SignAndSendTransaction \<lparr> recentBlockhash = ''BH1'',
            feePayer = ''PK'', instructions =
              [\<lparr> fromPubkey = ''PK'', toPubkey = ''TO'', lamports = 1000000 \<rparr>] \<rparr>
           # [ConfirmTransaction (Str ''SIG1'') ''BH1'' 100]"
    using hist1 [THEN c2, THEN c2, THEN c2, THEN c2, THEN c2, THEN c2, THEN conjunct1]
    by (simp add: page_defs sample_defs)
  have 6: "calls (trace (run ''TO'' untilConfirming (pageLoad phantom)))
       = [GetLatestBlockhash, SignAndSendTransaction \<lparr> recentBlockhash = ''BH1'',
            feePayer = ''PK'', instructions =
              [\<lparr> fromPubkey = ''PK'', toPubkey = ''TO'', lamports = 1000000 \<rparr>] \<rparr>]
           @ ConfirmTransaction (Str ''SIG1'') ''BH1'' 100 # []"
    using hist2 [THEN c2, THEN c2, THEN c2, THEN c2, THEN c2, THEN c2, THEN c2]
    by (simp add: page_defs sample_defs)
  from 1 2 3 4 5 6 show ?thesis
    by (simp only: simp_thms)
qed

text \<open>
  Claim C5, as the specification states it: every genuine failure during the pipeline
  (wallet rejection, submission failure, network error, timeout) is caught, turned into
  a typed outcome and handled by reverting the step to \<open>Form\<close> with a message; none
  escapes as an unhandled rejection. The code does not do that in two situations. When
  the wallet rejects the submission with the value \<^verbatim>\<open>undefined\<close>, the \<^verbatim>\<open>catch\<close> block
  itself throws on \<^verbatim>\<open>e.message\<close>: nothing is alerted, the step stays \<open>Processing\<close> and
  the rejection is unhandled. And when a confirmation is still outstanding after an
  hour, nothing has happened at all: the page has no timeout.
\<close>

theorem failures_escape_counterexample:
  "step (run ''TO'' (untilSubmitted @ [SignSettled 0 (Rejected Undefined)]) (pageLoad phantom))
     = Processing
   \<and> emitted ''TO'' (SignSettled 0 (Rejected Undefined)) (run ''TO'' untilSubmitted (pageLoad phantom))
     = [ConsoleError Undefined, SetBusy False, UnhandledRejection]
   \<and> step (run ''TO'' (untilConfirming @ [TimePasses 3600000]) (pageLoad phantom)) = Processing
   \<and> emitted ''TO'' (TimePasses 3600000) (run ''TO'' untilConfirming (pageLoad phantom)) = []"
  by (simp add: page_defs sample_defs)

text \<open>
  Claim C5, amended. Every failure that reaches a suspended invocation of
  \<^verbatim>\<open>simulateScamFlow\<close> as a rejection with a value that is neither \<^verbatim>\<open>null\<close> nor
  \<^verbatim>\<open>undefined\<close> (of the reference fetch, of the submission, or of the confirmation) is
  handled by the one \<^verbatim>\<open>catch\<close> block: the value is logged, an alert shows its message, or
  \<^verbatim>\<open>Transaction failed\<close> when it has none; the step is set to \<open>Form\<close>, \<open>busy\<close> is
  cleared, \<open>txSig\<close> is left as it was and the invocation is over.
\<close>

theorem failure_reverts_to_form:
  assumes "k < length (pending s)"
    and "\<not> nullish e"
    and "(\<exists>payer. pending s ! k = AwaitBlockhash payer \<and> i = BlockhashSettled k (Rejected e))
       \<or> (\<exists>blockhash height. pending s ! k = AwaitSign blockhash height
             \<and> i = SignSettled k (Rejected e))
       \<or> (\<exists>signature. pending s ! k = AwaitConfirm signature
             \<and> i = ConfirmSettled k (Rejected e))"
  shows "emitted recipient i s =
           [ConsoleError e,
            Alert (if truthy (property e) then toString (property e) else ''Transaction failed''),
            SetStep Form, SetBusy False]
       \<and> step (handle recipient i s) = Form
       \<and> \<not> busy (handle recipient i s)
       \<and> txSig (handle recipient i s) = txSig s
       \<and> pending (handle recipient i s) = take k (pending s) @ drop (Suc k) (pending s)"
  using assms
  by (auto simp: emitted_def continue_def afterBlockhash_def afterSign_def afterConfirm_def
      flowFailed_def)

theorem failure_reverts_to_form_witness:
  "0 < length (pending (run ''TO'' untilSubmitted (pageLoad phantom)))
   \<and> \<not> nullish (Obj (Str ''User rejected the request.''))
   \<and> pending (run ''TO'' untilSubmitted (pageLoad phantom)) ! 0 = AwaitSign ''BH1'' 100
   \<and> emitted ''TO'' (SignSettled 0 (Rejected (Obj (Str ''User rejected the request.''))))
        (run ''TO'' untilSubmitted (pageLoad phantom))
       = [ConsoleError (Obj (Str ''User rejected the request.'')),
          Alert ''User rejected the request.'', SetStep Form, SetBusy False]
   \<and> step (handle ''TO'' (SignSettled 0 (Rejected (Obj (Str ''User rejected the request.''))))
        (run ''TO'' untilSubmitted (pageLoad phantom))) = Form"
  using failure_reverts_to_form [of 0 "run ''TO'' untilSubmitted (pageLoad phantom)"
      "Obj (Str ''User rejected the request.'')"
      "SignSettled 0 (Rejected (Obj (Str ''User rejected the request.'')))" "''TO''"]
  by (simp add: page_defs sample_defs)

text \<open>
  Claim C6, as the specification states it: the confirmation wait is bounded by a
  timeout, after which the step reverts to \<open>Form\<close> with a message of its own. On the
  code, a page whose confirmation has not settled after a whole day is still in
  \<open>Processing\<close> with \<open>busy\<close> set, still waits, and has performed no effect since the
  confirmation was requested.
\<close>

theorem confirmation_wait_counterexample:
  "step (run ''TO'' (untilConfirming @ [TimePasses 86400000]) (pageLoad phantom)) = Processing
   \<and> busy (run ''TO'' (untilConfirming @ [TimePasses 86400000]) (pageLoad phantom))
   \<and> pending (run ''TO'' (untilConfirming @ [TimePasses 86400000]) (pageLoad phantom))
       = [AwaitConfirm (Str ''SIG1'')]
   \<and> trace (run ''TO'' (untilConfirming @ [TimePasses 86400000]) (pageLoad phantom))
       = trace (run ''TO'' untilConfirming (pageLoad phantom))"
  by (simp add: page_defs sample_defs)

text \<open>
  Claim C6, amended. The code puts no bound on the confirmation wait. In every run of
  the page, while the confirmation has not settled, no passage of time and no click
  moves the step out of \<open>Processing\<close>, clears \<open>busy\<close> or ends the wait. Only the
  ledger client can end it: when it rejects the confirmation with a value that is not
  nullish, the \<^verbatim>\<open>catch\<close> block logs it, alerts its message (\<^verbatim>\<open>Transaction failed\<close> when
  it has none) and sets the step to \<open>Form\<close>, which are the very effects of a rejected
  submission with the same value.
\<close>

theorem confirmation_wait_unbounded:
  assumes "s = run recipient ins (pageLoad w)"
    and "pending s = [AwaitConfirm signature]"
    and "\<forall>i \<in> set later. \<not> isConfirmSettled i"
    and "\<not> nullish e"
  shows "step (run recipient later s) = Processing
       \<and> busy (run recipient later s)
       \<and> pending (run recipient later s) = [AwaitConfirm signature]
       \<and> emitted recipient (ConfirmSettled 0 (Rejected e)) (run recipient later s) = flowFailed e
       \<and> flowFailed e =
           [ConsoleError e,
            Alert (if truthy (property e) then toString (property e) else ''Transaction failed''),
            SetStep Form, SetBusy False]
       \<and> step (handle recipient (ConfirmSettled 0 (Rejected e)) (run recipient later s)) = Form
       \<and> (pending s' = [AwaitSign blockhash height] \<longrightarrow>
            emitted recipient (SignSettled 0 (Rejected e)) s' = flowFailed e)"
proof -
  have "consistent s"
    using assms(1) by (simp add: consistent_reachable)
  with assms(2) have "step s = Processing" "busy s"
    by (simp_all add: consistent_def)
  with assms(2,3) have *: "pending (run recipient later s) = [AwaitConfirm signature]
       \<and> step (run recipient later s) = Processing \<and> busy (run recipient later s)"
    by (intro waiting_run) simp_all
  then have "emitted recipient (ConfirmSettled 0 (Rejected e)) (run recipient later s) = flowFailed e"
    "step (handle recipient (ConfirmSettled 0 (Rejected e)) (run recipient later s)) = Form"
    using assms(4) by (simp_all add: emitted_def continue_def afterConfirm_def flowFailed_def)
  moreover have "flowFailed e =
           [ConsoleError e,
            Alert (if truthy (property e) then toString (property e) else ''Transaction failed''),
            SetStep Form, SetBusy False]"
    using assms(4) by (simp add: flowFailed_def)
  moreover have "pending s' = [AwaitSign blockhash height] \<longrightarrow>
            emitted recipient (SignSettled 0 (Rejected e)) s' = flowFailed e"
    by (simp add: emitted_def afterSign_def)
  ultimately show ?thesis using * by simp
qed

theorem confirmation_wait_unbounded_witness:
  "pending (run ''TO'' untilConfirming (pageLoad phantom)) = [AwaitConfirm (Str ''SIG1'')]
   \<and> \<not> isConfirmSettled (TimePasses 30000) \<and> \<not> isConfirmSettled ClickToggleDetails
   \<and> \<not> isConfirmSettled (ClickCreateToken phantom) \<and> \<not> isConfirmSettled (TimePasses 86400000)
   \<and> \<not> nullish (Obj Undefined)
   \<and> pending (run ''TO'' untilSubmitted (pageLoad phantom)) = [AwaitSign ''BH1'' 100]
   \<and> step (run ''TO'' [TimePasses 30000, ClickToggleDetails, ClickCreateToken phantom, TimePasses 86400000]
        (run ''TO'' untilConfirming (pageLoad phantom))) = Processing
   \<and> emitted ''TO'' (ConfirmSettled 0 (Rejected (Obj Undefined)))
        (run ''TO'' [TimePasses 30000, ClickToggleDetails, ClickCreateToken phantom, TimePasses 86400000]
          (run ''TO'' untilConfirming (pageLoad phantom)))
       = [ConsoleError (Obj Undefined), Alert ''Transaction failed'', SetStep Form, SetBusy False]
   \<and> emitted ''TO'' (SignSettled 0 (Rejected (Obj Undefined)))
        (run ''TO'' untilSubmitted (pageLoad phantom))
       = [ConsoleError (Obj Undefined), Alert ''Transaction failed'', SetStep Form, SetBusy False]"
  using confirmation_wait_unbounded [OF refl, where recipient = "''TO''" and ins = untilConfirming
      and w = phantom and signature = "Str ''SIG1''"
      and later = "[TimePasses 30000, ClickToggleDetails, ClickCreateToken phantom, TimePasses 86400000]"
      and e = "Obj Undefined" and s' = "run ''TO'' untilSubmitted (pageLoad phantom)"
      and blockhash = "''BH1''" and height = 100]
  by (simp add: page_defs sample_defs)

text \<open>
  Claim C7. The module loads exactly when the configured address is well formed: the
  string of the environment when there is one and it is not empty, the built-in
  default otherwise. When it is not well formed there is no page, only the
  constructor's error; when it is, the page runs with that address as recipient. Every
  transaction in the history of such a page consists of one transfer of 1000000
  lamports from its fee payer to the configured address. A submit on a wallet that
  reports the key \<open>key\<close> leads, when the ledger answers, to the submission of exactly
  the transaction with that blockhash, fee payer \<open>key\<close> and the one transfer from
  \<open>key\<close>; and the fee payer of any submitted transaction is the key held by the
  invocation, which it took from the wallet when the submit was triggered.
\<close>

theorem payment_intent_fixed:
  assumes "configured = (case ENV_ADDR of None \<Rightarrow> DEFAULT_ADDR
                         | Some a \<Rightarrow> if a = [] then DEFAULT_ADDR else a)"
  shows "DEFAULT_ADDR = ''9xXFaJ6tDa3s8o1y6g8c2o1j9nKkz9g9m5A2wVvQ3Z9T''
       \<and> (DEMO_SCAMMER_ADDRESS wellFormed ENV_ADDR = Inr recipient) =
            (wellFormed recipient \<and> recipient = configured)
       \<and> (DEMO_SCAMMER_ADDRESS wellFormed ENV_ADDR = Inl InvalidPublicKeyInput) =
            (\<not> wellFormed configured)
       \<and> DevnetRugPullDemo wellFormed ENV_ADDR w ins =
            (if wellFormed configured then Inr (run configured ins (pageLoad w))
             else Inl InvalidPublicKeyInput)
       \<and> (DevnetRugPullDemo wellFormed ENV_ADDR w ins = Inr s
            \<and> SignAndSendTransaction tx \<in> set (trace s) \<longrightarrow>
            instructions tx =
              [\<lparr> fromPubkey = feePayer tx, toPubkey = configured, lamports = 1000000 \<rparr>])
       \<and> (DevnetRugPullDemo wellFormed ENV_ADDR w ins = Inr s
            \<and> step s = Form \<and> present (publicKey s) \<and> \<not> busy s
            \<and> provider_publicKey p = Some key \<longrightarrow>
            emitted configured (BlockhashSettled 0 (Resolved (blockhash, height)))
                (handle configured (ClickCreateToken (Some p)) s)
              = [SignAndSendTransaction \<lparr> recentBlockhash = blockhash, feePayer = key,
                   instructions =
                     [\<lparr> fromPubkey = key, toPubkey = configured, lamports = 1000000 \<rparr>] \<rparr>])
       \<and> (DevnetRugPullDemo wellFormed ENV_ADDR w ins = Inr s
            \<and> SignAndSendTransaction tx \<in> set (emitted configured i s) \<longrightarrow>
            pending s = [AwaitBlockhash (feePayer tx)])
       \<and> (DevnetRugPullDemo wellFormed ENV_ADDR w ins = Inr s
            \<and> pending (handle configured i s) = [AwaitBlockhash payer] \<longrightarrow>
            pending s = [AwaitBlockhash payer]
            \<or> (\<exists>p'. i = ClickCreateToken (Some p') \<and> provider_publicKey p' = Some payer))
       \<and> (snd (simulateScamFlow w') = Some f \<longrightarrow>
            (\<exists>p' payer'. w' = Some p' \<and> provider_publicKey p' = Some payer'
               \<and> f = AwaitBlockhash payer'))"
proof -
  have a: "DEFAULT_ADDR = ''9xXFaJ6tDa3s8o1y6g8c2o1j9nKkz9g9m5A2wVvQ3Z9T''"
    by (simp add: DEFAULT_ADDR_def)
  have b: "(DEMO_SCAMMER_ADDRESS wellFormed ENV_ADDR = Inr recipient) =
            (wellFormed recipient \<and> recipient = configured)"
    using assms by (cases ENV_ADDR) (auto simp: DEMO_SCAMMER_ADDRESS_def Let_def)
  have c: "(DEMO_SCAMMER_ADDRESS wellFormed ENV_ADDR = Inl InvalidPublicKeyInput) =
            (\<not> wellFormed configured)"
    using assms by (cases ENV_ADDR) (auto simp: DEMO_SCAMMER_ADDRESS_def Let_def)
  have d: "DevnetRugPullDemo wellFormed ENV_ADDR w ins =
            (if wellFormed configured then Inr (run configured ins (pageLoad w))
             else Inl InvalidPublicKeyInput)"
    using assms by (cases ENV_ADDR) (auto simp: DevnetRugPullDemo_def DEMO_SCAMMER_ADDRESS_def Let_def)
  have r: "s = run configured ins (pageLoad w)"
    if "DevnetRugPullDemo wellFormed ENV_ADDR w ins = Inr s"
    using that d by (simp split: if_splits)
  have e: "instructions tx =
              [\<lparr> fromPubkey = feePayer tx, toPubkey = configured, lamports = 1000000 \<rparr>]"
    if "DevnetRugPullDemo wellFormed ENV_ADDR w ins = Inr s
            \<and> SignAndSendTransaction tx \<in> set (trace s)"
    using that r transfers_reachable [of tx configured ins w] by blast
  have f: "emitted configured (BlockhashSettled 0 (Resolved (blockhash, height)))
                (handle configured (ClickCreateToken (Some p)) s)
              = [SignAndSendTransaction \<lparr> recentBlockhash = blockhash, feePayer = key,
                   instructions =
                     [\<lparr> fromPubkey = key, toPubkey = configured, lamports = 1000000 \<rparr>] \<rparr>]"
    if h: "DevnetRugPullDemo wellFormed ENV_ADDR w ins = Inr s
            \<and> step s = Form \<and> present (publicKey s) \<and> \<not> busy s
            \<and> provider_publicKey p = Some key"
  proof -
    from h r have "consistent s"
      by (simp add: consistent_reachable)
    with h have "pending s = []"
      by (auto simp: consistent_def split: list.splits)
    with h show ?thesis
      by (simp add: emitted_def simulateScamFlow_def currentPublicKey_def continue_def
          afterBlockhash_def)
  qed
  have g: "pending s = [AwaitBlockhash (feePayer tx)]"
    if h: "DevnetRugPullDemo wellFormed ENV_ADDR w ins = Inr s
            \<and> SignAndSendTransaction tx \<in> set (emitted configured i s)"
  proof -
    from h r have cs: "consistent s"
      by (simp add: consistent_reachable)
    from h submission_origin [of tx configured i s] obtain k where
      *: "k < length (pending s)" "pending s ! k = AwaitBlockhash (feePayer tx)"
      by blast
    from cs *(1) obtain fl where "pending s = [fl]" "k = 0"
      by (rule consistent_single)
    with * show ?thesis by simp
  qed
  have o: "pending s = [AwaitBlockhash payer]
            \<or> (\<exists>p'. i = ClickCreateToken (Some p') \<and> provider_publicKey p' = Some payer)"
    if h: "DevnetRugPullDemo wellFormed ENV_ADDR w ins = Inr s
            \<and> pending (handle configured i s) = [AwaitBlockhash payer]"
  proof -
    from h r have "consistent s"
      by (simp add: consistent_reachable)
    from awaiting_origin [OF this] h show ?thesis
      by blast
  qed
  have k: "\<exists>p' payer'. w' = Some p' \<and> provider_publicKey p' = Some payer'
               \<and> f = AwaitBlockhash payer'"
    if "snd (simulateScamFlow w') = Some f"
    using that by (auto simp: simulateScamFlow_def currentPublicKey_def split: option.splits)
  from a b c d e f g o k show ?thesis by blast
qed

theorem payment_intent_fixed_witness:
  "DEMO_SCAMMER_ADDRESS (\<lambda>a. length a = 44) None = Inr DEFAULT_ADDR
   \<and> DEMO_SCAMMER_ADDRESS (\<lambda>a. length a = 44) (Some ''not-a-key'') = Inl InvalidPublicKeyInput
   \<and> DevnetRugPullDemo (\<lambda>a. length a = 44) (Some ''not-a-key'') phantom [ClickStart]
       = Inl InvalidPublicKeyInput
   \<and> DevnetRugPullDemo (\<lambda>a. length a = 44) None phantom untilConfirming
       = Inr (run DEFAULT_ADDR untilConfirming (pageLoad phantom))
   \<and> SignAndSendTransaction \<lparr> recentBlockhash = ''BH1'', feePayer = ''PK'', instructions =
          [\<lparr> fromPubkey = ''PK'', toPubkey = DEFAULT_ADDR, lamports = 1000000 \<rparr>] \<rparr>
       \<in> set (trace (run DEFAULT_ADDR untilConfirming (pageLoad phantom)))
   \<and> DevnetRugPullDemo (\<lambda>a. length a = 44) None phantom [ClickStart]
       = Inr (run DEFAULT_ADDR [ClickStart] (pageLoad phantom))
   \<and> step (run DEFAULT_ADDR [ClickStart] (pageLoad phantom)) = Form
   \<and> present (publicKey (run DEFAULT_ADDR [ClickStart] (pageLoad phantom)))
   \<and> \<not> busy (run DEFAULT_ADDR [ClickStart] (pageLoad phantom))
   \<and> emitted DEFAULT_ADDR (BlockhashSettled 0 (Resolved (''BH3'', 300)))
        (handle DEFAULT_ADDR (ClickCreateToken (Some \<lparr> isPhantom = False, isCoinbase = False,
           isBackpack = True, isConnected = True, provider_publicKey = Some ''PK2'' \<rparr>))
          (run DEFAULT_ADDR [ClickStart] (pageLoad phantom)))
       = [SignAndSendTransaction \<lparr> recentBlockhash = ''BH3'', feePayer = ''PK2'', instructions =
            [\<lparr> fromPubkey = ''PK2'', toPubkey = DEFAULT_ADDR, lamports = 1000000 \<rparr>] \<rparr>]
   \<and> pending (handle DEFAULT_ADDR (ClickCreateToken phantom)
        (run DEFAULT_ADDR [ClickStart] (pageLoad phantom))) = [AwaitBlockhash ''PK'']
   \<and> snd (simulateScamFlow phantom) = Some (AwaitBlockhash ''PK'')"
proof -
  note c2 = conjunct2
  have wf: "length DEFAULT_ADDR = 44" "length ''not-a-key'' \<noteq> 44"
    by (simp_all add: DEFAULT_ADDR_def)
  note paid = payment_intent_fixed [OF refl, where wellFormed = "\<lambda>a. length a = 44"
      and ENV_ADDR = None and w = phantom and ins = untilConfirming
      and recipient = DEFAULT_ADDR
      and s = "run DEFAULT_ADDR untilConfirming (pageLoad phantom)"
      and tx = "\<lparr> recentBlockhash = ''BH1'', feePayer = ''PK'', instructions =
          [\<lparr> fromPubkey = ''PK'', toPubkey = DEFAULT_ADDR, lamports = 1000000 \<rparr>] \<rparr>"
      and w' = phantom and f = "AwaitBlockhash ''PK''"]
  note start = payment_intent_fixed [OF refl, where wellFormed = "\<lambda>a. length a = 44"
      and ENV_ADDR = None and w = phantom and ins = "[ClickStart]"
      and s = "run DEFAULT_ADDR [ClickStart] (pageLoad phantom)"
      and p = "\<lparr> isPhantom = False, isCoinbase = False, isBackpack = True,
         isConnected = True, provider_publicKey = Some ''PK2'' \<rparr>"
      and key = "''PK2''" and blockhash = "''BH3''" and height = 300
      and i = "ClickCreateToken phantom" and payer = "''PK''"]
  note broken = payment_intent_fixed [OF refl, where wellFormed = "\<lambda>a. length a = 44"
      and ENV_ADDR = "Some ''not-a-key''" and w = phantom and ins = "[ClickStart]"]
  have 1: "DEMO_SCAMMER_ADDRESS (\<lambda>a. length a = 44) None = Inr DEFAULT_ADDR"
    using paid [THEN c2, THEN conjunct1] by (simp add: wf)
  have 2: "DEMO_SCAMMER_ADDRESS (\<lambda>a. length a = 44) (Some ''not-a-key'') = Inl InvalidPublicKeyInput
     \<and> DevnetRugPullDemo (\<lambda>a. length a = 44) (Some ''not-a-key'') phantom [ClickStart]
       = Inl InvalidPublicKeyInput"
    using broken [THEN c2, THEN c2, THEN conjunct1] broken [THEN c2, THEN c2, THEN c2, THEN conjunct1]
    by (simp add: wf)
  have 3: "DevnetRugPullDemo (\<lambda>a. length a = 44) None phantom untilConfirming
       = Inr (run DEFAULT_ADDR untilConfirming (pageLoad phantom))"
    using paid [THEN c2, THEN c2, THEN c2, THEN conjunct1] by (simp add: wf)
  have 4: "SignAndSendTransaction \<lparr> recentBlockhash = ''BH1'', feePayer = ''PK'', instructions =
          [\<lparr> fromPubkey = ''PK'', toPubkey = DEFAULT_ADDR, lamports = 1000000 \<rparr>] \<rparr>
       \<in> set (trace (run DEFAULT_ADDR untilConfirming (pageLoad phantom)))"
    using paid [THEN c2, THEN c2, THEN c2, THEN c2, THEN conjunct1]
    by (simp add: page_defs sample_defs)
  have 5: "DevnetRugPullDemo (\<lambda>a. length a = 44) None phantom [ClickStart]
       = Inr (run DEFAULT_ADDR [ClickStart] (pageLoad phantom))"
    using start [THEN c2, THEN c2, THEN c2, THEN conjunct1] by (simp add: wf)
  have 6: "step (run DEFAULT_ADDR [ClickStart] (pageLoad phantom)) = Form
     \<and> present (publicKey (run DEFAULT_ADDR [ClickStart] (pageLoad phantom)))
     \<and> \<not> busy (run DEFAULT_ADDR [ClickStart] (pageLoad phantom))
     \<and> emitted DEFAULT_ADDR (BlockhashSettled 0 (Resolved (''BH3'', 300)))
        (handle DEFAULT_ADDR (ClickCreateToken (Some \<lparr> isPhantom = False, isCoinbase = False,
           isBackpack = True, isConnected = True, provider_publicKey = Some ''PK2'' \<rparr>))
          (run DEFAULT_ADDR [ClickStart] (pageLoad phantom)))
       = [SignAndSendTransaction \<lparr> recentBlockhash = ''BH3'', feePayer = ''PK2'', instructions =
            [\<lparr> fromPubkey = ''PK2'', toPubkey = DEFAULT_ADDR, lamports = 1000000 \<rparr>] \<rparr>]"
    using start [THEN c2, THEN c2, THEN c2, THEN c2, THEN c2, THEN conjunct1]
    by (simp add: page_defs sample_defs)
  have 7: "pending (handle DEFAULT_ADDR (ClickCreateToken phantom)
        (run DEFAULT_ADDR [ClickStart] (pageLoad phantom))) = [AwaitBlockhash ''PK'']"
    using start [THEN c2, THEN c2, THEN c2, THEN c2, THEN c2, THEN c2, THEN c2, THEN conjunct1]
    by (simp add: page_defs sample_defs)
  have 8: "snd (simulateScamFlow phantom) = Some (AwaitBlockhash ''PK'')"
    using paid [THEN c2, THEN c2, THEN c2, THEN c2, THEN c2, THEN c2, THEN c2, THEN c2]
    by (simp add: page_defs sample_defs)
  from 1 2 3 4 5 6 7 8 show ?thesis
    by (simp only: simp_thms)
qed

text \<open>
  Claim C8. The explorer link is a function of the signature alone, of the shape
  \<^verbatim>\<open><explorer-base>/tx/<signature>?cluster=devnet\<close>. For every signature (a string that
  is not empty, since the page builds no link for an empty \<open>txSig\<close>), reading the link
  back gives exactly that signature and the cluster tag \<open>devnet\<close>, and two signatures
  have the same link only if they are equal.
\<close>

theorem explorerTxUrl_round_trip:
  assumes "signature \<noteq> []" and "other \<noteq> []"
  shows "explorerTxUrl (Str signature) =
           Some (''https://explorer.solana.com/tx/'' @ signature @ ''?cluster=devnet'')
       \<and> parseExplorerTxUrl (''https://explorer.solana.com/tx/'' @ signature @ ''?cluster=devnet'')
           = Some (signature, ''devnet'')
       \<and> (explorerTxUrl (Str other) = explorerTxUrl (Str signature)) = (other = signature)"
proof -
  have "stripPrefix ''https://explorer.solana.com/tx/''
          (''https://explorer.solana.com/tx/'' @ signature @ ''?cluster=devnet'')
        = Some (signature @ ''?cluster=devnet'')"
    by (rule stripPrefix_append)
  moreover have "rev (takeWhile (\<lambda>c. c \<noteq> CHR ''?'') (rev (signature @ ''?cluster=devnet'')))
        = ''cluster=devnet''"
    by simp
  moreover have "rev (tl (dropWhile (\<lambda>c. c \<noteq> CHR ''?'') (rev (signature @ ''?cluster=devnet''))))
        = signature"
    by simp
  moreover have "stripPrefix ''cluster='' ''cluster=devnet'' = Some ''devnet''"
    by simp
  ultimately have "parseExplorerTxUrl
        (''https://explorer.solana.com/tx/'' @ signature @ ''?cluster=devnet'')
      = Some (signature, ''devnet'')"
    unfolding parseExplorerTxUrl_def by simp
  then show ?thesis
    using assms by (simp add: explorerTxUrl_def)
qed

theorem explorerTxUrl_round_trip_witness:
  "''SIG1'' \<noteq> [] \<and> ''SIG2'' \<noteq> []
   \<and> explorerTxUrl (Str ''SIG1'') = Some ''https://explorer.solana.com/tx/SIG1?cluster=devnet''
   \<and> parseExplorerTxUrl ''https://explorer.solana.com/tx/SIG1?cluster=devnet''
       = Some (''SIG1'', ''devnet'')
   \<and> explorerTxUrl (Str ''SIG2'') \<noteq> explorerTxUrl (Str ''SIG1'')"
  using explorerTxUrl_round_trip [of "''SIG1''" "''SIG2''"]
  by (simp add: explorerTxUrl_def)

text \<open>
  Claim C9. Every invocation of \<^verbatim>\<open>simulateScamFlow\<close> sets \<open>busy\<close> and then the step
  \<open>Processing\<close> before it looks at the wallet. When the wallet reports no public key, the
  invocation logs and alerts \<^verbatim>\<open>Wallet not connected.\<close>, sets the step back to \<open>Form\<close> and
  clears \<open>busy\<close>: started from the form it ends in \<open>Form\<close> after having set \<open>Processing\<close>,
  so it is not a step that leaves the page untouched.
\<close>

theorem submit_sets_processing_first:
  "take 2 (fst (simulateScamFlow w)) = [SetBusy True, SetStep Processing]
   \<and> (currentPublicKey w = None \<longrightarrow>
        simulateScamFlow w =
          ([SetBusy True, SetStep Processing, ConsoleError (Obj (Str ''Wallet not connected.'')),
            Alert ''Wallet not connected.'', SetStep Form, SetBusy False], None)
        \<and> (step s = Form \<and> present (publicKey s) \<and> \<not> busy s \<longrightarrow>
             emitted recipient (ClickCreateToken w) s =
               [SetBusy True, SetStep Processing, ConsoleError (Obj (Str ''Wallet not connected.'')),
                Alert ''Wallet not connected.'', SetStep Form, SetBusy False]
             \<and> step (handle recipient (ClickCreateToken w) s) = Form
             \<and> \<not> busy (handle recipient (ClickCreateToken w) s)
             \<and> pending (handle recipient (ClickCreateToken w) s) = pending s))"
  by (simp add: simulateScamFlow_def flowFailed_def emitted_def split: option.splits)

theorem submit_sets_processing_first_witness:
  "currentPublicKey None = None
   \<and> step (run ''TO'' [ClickStart, ClickConnectWallet (Some \<lparr> isPhantom = True,
          isCoinbase = False, isBackpack = False, isConnected = False,
          provider_publicKey = None \<rparr>), ConnectSettled (Resolved (Some ''PK''))]
        (pageLoad None)) = Form
   \<and> present (publicKey (run ''TO'' [ClickStart, ClickConnectWallet (Some \<lparr> isPhantom = True,
          isCoinbase = False, isBackpack = False, isConnected = False,
          provider_publicKey = None \<rparr>), ConnectSettled (Resolved (Some ''PK''))]
        (pageLoad None)))
   \<and> \<not> busy (run ''TO'' [ClickStart, ClickConnectWallet (Some \<lparr> isPhantom = True,
          isCoinbase = False, isBackpack = False, isConnected = False,
          provider_publicKey = None \<rparr>), ConnectSettled (Resolved (Some ''PK''))]
        (pageLoad None))
   \<and> emitted ''TO'' (ClickCreateToken None)
        (run ''TO'' [ClickStart, ClickConnectWallet (Some \<lparr> isPhantom = True,
          isCoinbase = False, isBackpack = False, isConnected = False,
          provider_publicKey = None \<rparr>), ConnectSettled (Resolved (Some ''PK''))]
        (pageLoad None))
       = [SetBusy True, SetStep Processing, ConsoleError (Obj (Str ''Wallet not connected.'')),
          Alert ''Wallet not connected.'', SetStep Form, SetBusy False]"
  using submit_sets_processing_first [of None
      "run ''TO'' [ClickStart, ClickConnectWallet (Some \<lparr> isPhantom = True,
          isCoinbase = False, isBackpack = False, isConnected = False,
          provider_publicKey = None \<rparr>), ConnectSettled (Resolved (Some ''PK''))]
        (pageLoad None)" "''TO''"]
  by (simp add: page_defs)

text \<open>
  Claim C10. \<open>txSig\<close> is assigned only when a confirmation resolves: no other step
  changes it, in particular no rejection of the reference fetch, of the submission or of
  the confirmation, and no submit without a wallet key, whatever \<open>txSig\<close> was before
  (so a failed attempt on a page that already shows a signature still shows it). In
  every run of the page, once \<open>txSig\<close> is not \<open>Null\<close> it keeps its value under all
  further inputs.
\<close>

theorem txSig_only_set_by_confirmation:
  "(txSig (handle recipient i s) \<noteq> txSig s \<longrightarrow>
      (\<exists>k err. i = ConfirmSettled k (Resolved err) \<and> k < length (pending s)
         \<and> pending s ! k = AwaitConfirm (txSig (handle recipient i s))))
   \<and> txSig (handle recipient (BlockhashSettled k (Rejected e)) s) = txSig s
   \<and> txSig (handle recipient (SignSettled k (Rejected e)) s) = txSig s
   \<and> txSig (handle recipient (ConfirmSettled k (Rejected e)) s) = txSig s
   \<and> (currentPublicKey w' = None \<longrightarrow>
        txSig (handle recipient (ClickCreateToken w') s) = txSig s)
   \<and> (txSig (run recipient ins (pageLoad w)) \<noteq> Null \<longrightarrow>
        txSig (run recipient later (run recipient ins (pageLoad w)))
          = txSig (run recipient ins (pageLoad w)))"
  using txSig_changes [of recipient _ s]
    txSig_frozen_run [OF consistent_reachable, of recipient ins w recipient later]
  by blast

theorem txSig_only_set_by_confirmation_witness:
  "txSig (handle ''TO'' (ConfirmSettled 0 (Resolved None)) (run ''TO'' untilConfirming (pageLoad phantom)))
     \<noteq> txSig (run ''TO'' untilConfirming (pageLoad phantom))
   \<and> pending (run ''TO'' untilConfirming (pageLoad phantom)) ! 0 = AwaitConfirm (Str ''SIG1'')
   \<and> currentPublicKey None = None
   \<and> txSig (run ''TO'' untilError (pageLoad phantom)) \<noteq> Null
   \<and> txSig (run ''TO'' [ClickGetRefund, ClickCreateToken phantom, ClickFinishDemo]
        (run ''TO'' untilError (pageLoad phantom))) = Str ''SIG1''"
  using txSig_only_set_by_confirmation [of "''TO''" "ConfirmSettled 0 (Resolved None)"
      "run ''TO'' untilConfirming (pageLoad phantom)" 0 Undefined None untilError phantom
      "[ClickGetRefund, ClickCreateToken phantom, ClickFinishDemo]"]
  by (simp add: page_defs sample_defs)

end
